theory Spec2Isabelle
  imports Main "HOL-Library.Word"
begin

unbundle bit_operations_syntax

section \<open>Common types\<close>

text \<open>
  The model is for an LP64 target: \<open>size_t\<close> is a 64-bit unsigned integer whose arithmetic
  wraps, and \<open>alignof(std::max_align_t)\<close> is 16.  A pointer is either \<open>nullptr\<close>
  (\<open>None\<close>) or the address it holds (\<open>Some a\<close>, the value of
  \<open>reinterpret_cast<uintptr_t>\<close>).  Addresses of objects and slot indices are natural
  numbers: an array lies inside the address space, so computing the address of one of its
  elements never wraps.
\<close>

type_synonym size_t = "64 word"
type_synonym pointer = "nat option"

section \<open>MemoryPool<T, PoolSize>\<close>

text \<open>
  The members of the class template.  \<open>storage_begin\<close> is the address of \<open>storage_[0]\<close>
  and \<open>block_size\<close> is \<open>sizeof(StorageBlock)\<close>; both are fixed for the lifetime of a pool.
  \<open>used\<close> is the \<open>std::bitset<PoolSize> used_\<close>: a bitset has exactly \<open>PoolSize\<close> bits,
  so the template parameter is the length of the list.  \<open>next_free\<close> and
  \<open>allocated_count\<close> are the two atomics; every access to them happens under the pool's
  unique lock, so one call is one atomic step of the model.
\<close>

record memory_pool =
  storage_begin :: nat
  block_size :: nat
  used :: "bool list"
  next_free :: nat
  allocated_count :: size_t

definition PoolSize :: "memory_pool \<Rightarrow> nat" where
  "PoolSize s = length (used s)"

text \<open>The default-constructed pool: all bits clear, both atomics zero.\<close>

definition pool_init :: "nat \<Rightarrow> nat \<Rightarrow> nat \<Rightarrow> memory_pool" where
  "pool_init base bs n =
     \<lparr>storage_begin = base, block_size = bs, used = replicate n False,
      next_free = 0, allocated_count = 0\<rparr>"

text \<open>
  One \<open>for\<close> loop of \<open>find_free_slot\<close>: the first index \<open>i\<close> with \<open>lo \<le> i < hi\<close> whose bit
  is clear, or \<open>None\<close> when the loop runs to its end.
\<close>

function scan_free :: "bool list \<Rightarrow> nat \<Rightarrow> nat \<Rightarrow> nat option" where
  "scan_free bits i hi =
     (if i < hi then (if \<not> bits ! i then Some i else scan_free bits (Suc i) hi)
      else None)"
  by pat_completeness auto
termination
  by (relation "measure (\<lambda>(bits, i, hi). hi - i)") auto

declare scan_free.simps [simp del]

text \<open>
  \<open>find_free_slot\<close>: scan from the cursor to the end, then wrap around and scan from 0 up to
  the cursor; a hit moves the cursor to the slot behind it (modulo \<open>PoolSize\<close>), a miss
  returns \<open>PoolSize\<close>.
\<close>

definition find_free_slot :: "memory_pool \<Rightarrow> nat \<times> memory_pool" where
  "find_free_slot s =
     (case scan_free (used s) (next_free s) (PoolSize s) of
        Some i \<Rightarrow> (i, s\<lparr>next_free := (i + 1) mod PoolSize s\<rparr>)
      | None \<Rightarrow>
          (case scan_free (used s) 0 (next_free s) of
             Some i \<Rightarrow> (i, s\<lparr>next_free := (i + 1) mod PoolSize s\<rparr>)
           | None \<Rightarrow> (PoolSize s, s)))"

definition slot_address :: "memory_pool \<Rightarrow> nat \<Rightarrow> nat" where
  "slot_address s slot = storage_begin s + slot * block_size s"

definition pool_allocate :: "memory_pool \<Rightarrow> pointer \<times> memory_pool" where
  "pool_allocate s =
     (case find_free_slot s of
        (slot, s1) \<Rightarrow>
          if slot \<ge> PoolSize s1 then (None, s1)
          else (Some (slot_address s1 slot),
                s1\<lparr>used := (used s1)[slot := True],
                   allocated_count := allocated_count s1 + 1\<rparr>))"

definition pool_deallocate :: "memory_pool \<Rightarrow> pointer \<Rightarrow> memory_pool" where
  "pool_deallocate s ptr =
     (case ptr of
        None \<Rightarrow> s
      | Some ptr_addr \<Rightarrow>
          let storage_end = storage_begin s + PoolSize s * block_size s in
          if ptr_addr < storage_begin s \<or> ptr_addr \<ge> storage_end then s
          else
            let slot = (ptr_addr - storage_begin s) div block_size s in
            if slot < PoolSize s \<and> used s ! slot then
              let s1 = s\<lparr>used := (used s)[slot := False],
                         allocated_count := allocated_count s - 1\<rparr>
              in if slot < next_free s1 then s1\<lparr>next_free := slot\<rparr> else s1
            else s)"

definition allocated :: "memory_pool \<Rightarrow> size_t" where
  "allocated s = allocated_count s"

definition available :: "memory_pool \<Rightarrow> size_t" where
  "available s = of_nat (PoolSize s) - allocated s"

definition is_full :: "memory_pool \<Rightarrow> bool" where
  "is_full s \<longleftrightarrow> allocated s \<ge> of_nat (PoolSize s)"

definition is_empty :: "memory_pool \<Rightarrow> bool" where
  "is_empty s \<longleftrightarrow> allocated s = 0"

text \<open>
  The states a pool can be in.  \<open>PoolSize\<close> is a positive \<open>size_t\<close> (an array of zero
  blocks is not a valid member), a block has at least one byte, the cursor stays below
  \<open>PoolSize\<close>, and the counter is the number of set bits.
\<close>

definition popcount :: "bool list \<Rightarrow> nat" where
  "popcount bits = length (filter (\<lambda>b. b) bits)"

definition pool_inv :: "memory_pool \<Rightarrow> bool" where
  "pool_inv s \<longleftrightarrow>
     0 < PoolSize s \<and> PoolSize s < 2 ^ 64 \<and> 0 < block_size s \<and>
     next_free s < PoolSize s \<and> unat (allocated_count s) = popcount (used s)"

text \<open>
  Sequences of calls.  Beside the pool a run keeps the list of live allocations: an
  address enters it when \<open>allocate\<close> returns it and leaves it when a \<open>deallocate\<close> has
  cleared the bit of its slot.  \<open>slot_of\<close> is the slot computation of \<open>deallocate\<close>.
\<close>

datatype pool_op = Allocate | Deallocate pointer

definition slot_of :: "memory_pool \<Rightarrow> nat \<Rightarrow> nat" where
  "slot_of s a = (a - storage_begin s) div block_size s"

fun pool_step :: "memory_pool \<times> nat list \<Rightarrow> pool_op \<Rightarrow> memory_pool \<times> nat list" where
  "pool_step (s, live) Allocate =
     (case pool_allocate s of
        (None, s') \<Rightarrow> (s', live)
      | (Some p, s') \<Rightarrow> (s', p # live))"
| "pool_step (s, live) (Deallocate ptr) =
     (let s' = pool_deallocate s ptr
      in (s', filter (\<lambda>p. used s' ! slot_of s' p) live))"

definition pool_run :: "memory_pool \<Rightarrow> pool_op list \<Rightarrow> memory_pool \<times> nat list" where
  "pool_run s ops = foldl pool_step (s, []) ops"

text \<open>
  What a run maintains: the cursor is at most \<open>PoolSize\<close>, and the live addresses are
  pairwise distinct slot addresses whose bits are set.
\<close>

definition live_inv :: "memory_pool \<times> nat list \<Rightarrow> bool" where
  "live_inv st \<longleftrightarrow>
     (case st of (s, live) \<Rightarrow>
        next_free s \<le> PoolSize s \<and> 0 < block_size s \<and> distinct live \<and>
        (\<forall>p \<in> set live. \<exists>k < PoolSize s. p = slot_address s k \<and> used s ! k))"

text \<open>A pool of two 8-byte blocks with both in use.\<close>

definition pool_full2 :: memory_pool where
  "pool_full2 = \<lparr>storage_begin = 4096, block_size = 8, used = [True, True],
                  next_free = 1, allocated_count = 2\<rparr>"

section \<open>StackAllocator<StackSize>\<close>

text \<open>
  \<open>align_up<Alignment>(size)\<close> rounds up to a multiple of a power of two in \<open>size_t\<close>
  arithmetic; the sum wraps for sizes within \<open>Alignment\<close> of \<open>2^64\<close>.
\<close>

definition max_align :: size_t where
  "max_align = 16"

definition align_up :: "size_t \<Rightarrow> size_t \<Rightarrow> size_t" where
  "align_up Alignment sz = (sz + Alignment - 1) AND NOT (Alignment - 1)"

text \<open>
  \<open>stack_begin\<close> is the address of \<open>stack_[0]\<close>, \<open>stack_size\<close> the template parameter
  \<open>StackSize\<close>, \<open>stack_top\<close> the atomic \<open>top_\<close>.  One call runs alone, so the
  compare-and-exchange of \<open>allocate\<close> succeeds with the values computed before the loop.
  The \<open>alignment\<close> argument is not used by the source.
\<close>

record stack_allocator =
  stack_begin :: nat
  stack_size :: size_t
  stack_top :: size_t

definition stack_init :: "nat \<Rightarrow> size_t \<Rightarrow> stack_allocator" where
  "stack_init base n = \<lparr>stack_begin = base, stack_size = n, stack_top = 0\<rparr>"

definition stack_allocate ::
  "stack_allocator \<Rightarrow> size_t \<Rightarrow> size_t \<Rightarrow> pointer \<times> stack_allocator" where
  "stack_allocate s sz alignment =
     (let sz' = align_up max_align sz;
          current_top = stack_top s;
          aligned_top = align_up max_align current_top;
          new_top = aligned_top + sz'
      in if new_top > stack_size s then (None, s)
         else (Some (stack_begin s + unat aligned_top), s\<lparr>stack_top := new_top\<rparr>))"

definition deallocate_to :: "stack_allocator \<Rightarrow> pointer \<Rightarrow> stack_allocator" where
  "deallocate_to s ptr =
     (case ptr of
        None \<Rightarrow> s
      | Some ptr_addr \<Rightarrow>
          if ptr_addr \<ge> stack_begin s \<and> ptr_addr < stack_begin s + unat (stack_size s)
          then s\<lparr>stack_top := of_nat (ptr_addr - stack_begin s)\<rparr>
          else s)"

definition stack_reset :: "stack_allocator \<Rightarrow> stack_allocator" where
  "stack_reset s = s\<lparr>stack_top := 0\<rparr>"

definition stack_used :: "stack_allocator \<Rightarrow> size_t" where
  "stack_used s = stack_top s"

definition stack_available :: "stack_allocator \<Rightarrow> size_t" where
  "stack_available s = stack_size s - stack_used s"

text \<open>
  The mutating public operations, and a run of them.  \<open>bump_only\<close> holds of an
  \<open>allocate\<close> call whose size is so far from \<open>2^64\<close> that neither rounding it up nor adding
  it to an offset inside the buffer wraps.
\<close>

datatype stack_op = StackAllocate size_t size_t | StackDeallocateTo pointer | StackReset

fun stack_step :: "stack_allocator \<Rightarrow> stack_op \<Rightarrow> stack_allocator" where
  "stack_step s (StackAllocate sz alignment) = snd (stack_allocate s sz alignment)"
| "stack_step s (StackDeallocateTo ptr) = deallocate_to s ptr"
| "stack_step s StackReset = stack_reset s"

definition stack_run :: "stack_allocator \<Rightarrow> stack_op list \<Rightarrow> stack_allocator" where
  "stack_run s ops = foldl stack_step s ops"

fun bump_only :: "size_t \<Rightarrow> stack_op \<Rightarrow> bool" where
  "bump_only n (StackAllocate sz alignment) \<longleftrightarrow> unat n + unat sz + 30 < 2 ^ 64"
| "bump_only n (StackDeallocateTo ptr) \<longleftrightarrow> False"
| "bump_only n StackReset \<longleftrightarrow> False"

section \<open>MemoryManager\<close>

text \<open>
  The members of \<open>MemoryManager\<close>.  The three pools are \<open>MemoryPool<char, 4096>\<close>,
  \<open>MemoryPool<char, 2048>\<close> and \<open>MemoryPool<char, 1024>\<close>, so their blocks are one byte
  wide.  \<open>allocation_histogram\<close> is the \<open>std::unordered_map<size_t, size_t>\<close>.
\<close>

record memory_manager =
  small_object_pool :: memory_pool
  medium_object_pool :: memory_pool
  large_object_pool :: memory_pool
  stack_alloc :: stack_allocator
  total_allocated :: size_t
  total_deallocated :: size_t
  peak_usage :: size_t
  allocation_histogram :: "size_t \<rightharpoonup> size_t"

text \<open>
  A fresh manager; the arguments are the addresses at which the three pools' storage and
  the stack buffer lie.
\<close>

definition mm_init :: "nat \<Rightarrow> nat \<Rightarrow> nat \<Rightarrow> nat \<Rightarrow> memory_manager" where
  "mm_init small_base medium_base large_base stack_base =
     \<lparr>small_object_pool = pool_init small_base 1 4096,
      medium_object_pool = pool_init medium_base 1 2048,
      large_object_pool = pool_init large_base 1 1024,
      stack_alloc = stack_init stack_base 16384,
      total_allocated = 0, total_deallocated = 0, peak_usage = 0,
      allocation_histogram = Map.empty\<rparr>"

text \<open>
  \<open>update_statistics\<close>.  \<open>fetch_add\<close> returns the value before the addition, and that
  value is what the peak is compared with.  \<open>allocation_histogram_[size]++\<close> inserts a zero
  for a new key first.
\<close>

definition update_statistics :: "memory_manager \<Rightarrow> size_t \<Rightarrow> bool \<Rightarrow> memory_manager" where
  "update_statistics mm sz allocating =
     (if allocating then
        let current = total_allocated mm;
            mm1 = mm\<lparr>total_allocated := total_allocated mm + sz\<rparr>;
            current_peak = peak_usage mm1;
            mm2 = (if current > current_peak then mm1\<lparr>peak_usage := current\<rparr> else mm1)
        in mm2\<lparr>allocation_histogram :=
                 (allocation_histogram mm2)
                   (sz \<mapsto> (case allocation_histogram mm2 sz of None \<Rightarrow> 0 | Some c \<Rightarrow> c) + 1)\<rparr>
      else mm\<lparr>total_deallocated := total_deallocated mm + sz\<rparr>)"

text \<open>
  \<open>MemoryManager::allocate\<close>.  \<open>aligned_alloc\<close> stands for \<open>std::aligned_alloc\<close>, the
  system allocator: given the alignment and the size it yields a block or \<open>nullptr\<close>.
\<close>

definition mm_allocate ::
  "(size_t \<Rightarrow> size_t \<Rightarrow> pointer) \<Rightarrow> memory_manager \<Rightarrow> size_t \<Rightarrow> size_t
     \<Rightarrow> pointer \<times> memory_manager" where
  "mm_allocate aligned_alloc mm sz alignment =
     (case (if sz \<le> 64 then
              (case pool_allocate (small_object_pool mm) of
                 (p, pool) \<Rightarrow> (p, mm\<lparr>small_object_pool := pool\<rparr>))
            else if sz \<le> 512 then
              (case pool_allocate (medium_object_pool mm) of
                 (p, pool) \<Rightarrow> (p, mm\<lparr>medium_object_pool := pool\<rparr>))
            else if sz \<le> 4096 then
              (case pool_allocate (large_object_pool mm) of
                 (p, pool) \<Rightarrow> (p, mm\<lparr>large_object_pool := pool\<rparr>))
            else (aligned_alloc alignment sz, mm)) of
        (None, mm1) \<Rightarrow> (None, mm1)
      | (Some a, mm1) \<Rightarrow> (Some a, update_statistics mm1 sz True))"

text \<open>
  \<open>MemoryManager::deallocate\<close>.  For a size above 4096 it calls \<open>std::free(ptr)\<close>, whose
  behaviour is defined only for a block that the system allocator has returned and that
  has not been freed since; \<open>system_block\<close> says which addresses are such blocks.  On any
  other pointer the call has undefined behaviour, the error \<open>InvalidFree\<close>, and
  \<open>update_statistics\<close> is not reached.  On a system block \<open>std::free\<close> touches no member
  of the manager.  Every branch that returns sets \<open>deallocated = true\<close>.
\<close>

datatype mm_error = InvalidFree

definition mm_deallocate ::
  "(nat \<Rightarrow> bool) \<Rightarrow> memory_manager \<Rightarrow> pointer \<Rightarrow> size_t \<Rightarrow> mm_error + memory_manager" where
  "mm_deallocate system_block mm ptr sz =
     (case ptr of
        None \<Rightarrow> Inr mm
      | Some a \<Rightarrow>
          (case (if sz \<le> 64 then
                   Inr (mm\<lparr>small_object_pool := pool_deallocate (small_object_pool mm) ptr\<rparr>)
                 else if sz \<le> 512 then
                   Inr (mm\<lparr>medium_object_pool := pool_deallocate (medium_object_pool mm) ptr\<rparr>)
                 else if sz \<le> 4096 then
                   Inr (mm\<lparr>large_object_pool := pool_deallocate (large_object_pool mm) ptr\<rparr>)
                 else if system_block a then Inr mm
                 else Inl InvalidFree) of
             Inl e \<Rightarrow> Inl e
           | Inr mm1 \<Rightarrow> Inr (update_statistics mm1 sz False)))"

definition allocate_temp ::
  "memory_manager \<Rightarrow> size_t \<Rightarrow> size_t \<Rightarrow> pointer \<times> memory_manager" where
  "allocate_temp mm sz alignment =
     (case stack_allocate (stack_alloc mm) sz alignment of
        (p, st) \<Rightarrow> (p, mm\<lparr>stack_alloc := st\<rparr>))"

definition reset_temp :: "memory_manager \<Rightarrow> memory_manager" where
  "reset_temp mm = mm\<lparr>stack_alloc := stack_reset (stack_alloc mm)\<rparr>"

text \<open>
  \<open>get_stats\<close>, without the three \<open>double\<close> utilisation ratios of \<open>MemoryStats\<close>.
\<close>

record MemoryStats =
  stats_total_allocated :: size_t
  stats_total_deallocated :: size_t
  current_usage :: size_t
  stats_peak_usage :: size_t
  stack_usage :: size_t

definition get_stats :: "memory_manager \<Rightarrow> MemoryStats" where
  "get_stats mm =
     \<lparr>stats_total_allocated = total_allocated mm,
      stats_total_deallocated = total_deallocated mm,
      current_usage = total_allocated mm - total_deallocated mm,
      stats_peak_usage = peak_usage mm,
      stack_usage = stack_used (stack_alloc mm)\<rparr>"

text \<open>The pool that \<open>allocate\<close> and \<open>deallocate\<close> pick for a size of at most 4096.\<close>

definition size_class_pool :: "memory_manager \<Rightarrow> size_t \<Rightarrow> memory_pool" where
  "size_class_pool mm sz =
     (if sz \<le> 64 then small_object_pool mm
      else if sz \<le> 512 then medium_object_pool mm
      else large_object_pool mm)"

definition in_storage :: "memory_pool \<Rightarrow> nat \<Rightarrow> bool" where
  "in_storage s a \<longleftrightarrow>
     storage_begin s \<le> a \<and> a < storage_begin s + PoolSize s * block_size s"

text \<open>A manager whose small pool has all 4096 slots in use.\<close>

definition mm_small_exhausted :: memory_manager where
  "mm_small_exhausted =
     (mm_init 65536 131072 196608 262144)
       \<lparr>small_object_pool :=
          \<lparr>storage_begin = 65536, block_size = 1, used = replicate 4096 True,
           next_free = 0, allocated_count = 4096\<rparr>,
        total_allocated := 4096 * 32\<rparr>"

section \<open>The shell: processes, parsing and execution\<close>

text \<open>
  A C \<open>int\<close> is a 32-bit word; it is read with \<open>sint\<close> where the source compares it.
\<close>

type_synonym c_int = "32 word"

datatype ProcessState = NotStarted | Running | Completed | Failed | Terminated | Suspended

record ProcessInfo =
  pid :: c_int
  parent_pid :: c_int
  state :: ProcessState
  exit_code :: c_int
  start_time :: "64 word"
  end_time :: "64 word"
  command :: string
  arguments :: "string list"
  working_dir :: string

text \<open>The default constructor of \<open>ProcessInfo\<close>.\<close>

definition ProcessInfo_default :: ProcessInfo where
  "ProcessInfo_default =
     \<lparr>pid = 0, parent_pid = 0, state = NotStarted, exit_code = 0, start_time = 0,
      end_time = 0, command = [], arguments = [], working_dir = []\<rparr>"

record ParsedCommand =
  executable :: string
  parsed_arguments :: "string list"
  input_redirections :: "string list"
  output_redirections :: "string list"
  append_output :: bool
  run_in_background :: bool

definition isValid :: "ParsedCommand \<Rightarrow> bool" where
  "isValid cmd \<longleftrightarrow> executable cmd \<noteq> []"

text \<open>The POSIX members of \<open>ProcessHandle\<close> and its default constructor.\<close>

record ProcessHandle =
  handle_pid :: c_int
  stdin_fd :: c_int
  stdout_fd :: c_int
  stderr_fd :: c_int

definition ProcessHandle_default :: ProcessHandle where
  "ProcessHandle_default = \<lparr>handle_pid = - 1, stdin_fd = - 1, stdout_fd = - 1, stderr_fd = - 1\<rparr>"

subsection \<open>ProcessIO\<close>

text \<open>
  The two character arrays with the number of bytes in use of each.  An array made by
  \<open>std::make_unique<char[]>(n)\<close> holds \<open>n\<close> zero bytes.
\<close>

record ProcessIO =
  stdout_buffer :: string
  stderr_buffer :: string
  stdout_size :: nat
  stderr_size :: nat

definition BUFFER_SIZE :: nat where
  "BUFFER_SIZE = 8192"

definition ProcessIO_new :: ProcessIO where
  "ProcessIO_new =
     \<lparr>stdout_buffer = replicate BUFFER_SIZE (CHR 0x00),
      stderr_buffer = replicate BUFFER_SIZE (CHR 0x00),
      stdout_size = 0, stderr_size = 0\<rparr>"

text \<open>
  \<open>memcpy(buffer + used, data, size)\<close> on an array, after the array has been replaced by a
  larger zeroed one holding the bytes in use when the data would not fit \<open>BUFFER_SIZE\<close>.
\<close>

definition append_bytes :: "string \<Rightarrow> nat \<Rightarrow> string \<Rightarrow> string" where
  "append_bytes buffer used_size data =
     (let buf =
            (if used_size + length data > BUFFER_SIZE then
               let new_size = max (BUFFER_SIZE * 2) (used_size + length data)
               in take used_size buffer @ replicate (new_size - used_size) (CHR 0x00)
             else buffer)
      in take used_size buf @ data @ drop (used_size + length data) buf)"

definition appendStdout :: "ProcessIO \<Rightarrow> string \<Rightarrow> ProcessIO" where
  "appendStdout pio data =
     pio\<lparr>stdout_buffer := append_bytes (stdout_buffer pio) (stdout_size pio) data,
         stdout_size := stdout_size pio + length data\<rparr>"

definition appendStderr :: "ProcessIO \<Rightarrow> string \<Rightarrow> ProcessIO" where
  "appendStderr pio data =
     pio\<lparr>stderr_buffer := append_bytes (stderr_buffer pio) (stderr_size pio) data,
         stderr_size := stderr_size pio + length data\<rparr>"

definition getStdout :: "ProcessIO \<Rightarrow> string" where
  "getStdout pio = take (stdout_size pio) (stdout_buffer pio)"

definition getStderr :: "ProcessIO \<Rightarrow> string" where
  "getStderr pio = take (stderr_size pio) (stderr_buffer pio)"

definition getAllOutput :: "ProcessIO \<Rightarrow> string" where
  "getAllOutput pio =
     take (stdout_size pio) (stdout_buffer pio) @ take (stderr_size pio) (stderr_buffer pio)"

definition clear :: "ProcessIO \<Rightarrow> ProcessIO" where
  "clear pio = pio\<lparr>stdout_size := 0, stderr_size := 0\<rparr>"

definition hasData :: "ProcessIO \<Rightarrow> bool" where
  "hasData pio \<longleftrightarrow> stdout_size pio > 0 \<or> stderr_size pio > 0"

subsection \<open>ManagedProcess\<close>

text \<open>
  The members of \<open>ManagedProcess\<close>, without the thread object and the two callbacks:
  the callbacks are the caller's code and change no member.
\<close>

record ManagedProcess =
  handle :: ProcessHandle
  info :: ProcessInfo
  io :: ProcessIO
  running :: bool
  io_thread_active :: bool

text \<open>
  What the model takes from outside the sources: the system calls, the clock,
  \<open>std::stoi\<close>, and \<open>CommandParser::parse\<close>, which \<open>shell_impl.h\<close> declares and no
  source file defines.
  \<^item> \<open>os_chdir path\<close>: \<open>chdir(path) == 0\<close>;
  \<^item> \<open>os_getcwd path\<close>: what \<open>getcwd\<close> yields after that \<open>chdir\<close>, \<open>None\<close> when it fails;
  \<^item> \<open>os_kill p force\<close>: \<open>kill(p, force ? SIGKILL : SIGTERM) == 0\<close>;
  \<^item> \<open>os_now\<close>: the reading of the system clock in milliseconds;
  \<^item> \<open>os_io_step\<close>: one iteration of the I/O thread's loop on a process with an open
    descriptor (\<open>select\<close>, \<open>read\<close>, \<open>waitpid\<close> and what the loop does with their results);
  \<^item> \<open>std_stoi\<close>: the value of \<open>std::stoi\<close>, \<open>None\<close> when it throws;
  \<^item> \<open>parser\<close>: \<open>CommandParser::parse(command, env)\<close>.
\<close>

record platform =
  os_chdir :: "string \<Rightarrow> bool"
  os_getcwd :: "string \<Rightarrow> string option"
  os_kill :: "c_int \<Rightarrow> bool \<Rightarrow> bool"
  os_now :: "64 word"
  os_io_step :: "ManagedProcess \<Rightarrow> ManagedProcess"
  std_stoi :: "string \<Rightarrow> c_int option"
  parser :: "(string \<rightharpoonup> string) \<Rightarrow> string \<Rightarrow> ParsedCommand"

definition ManagedProcess_new ::
  "platform \<Rightarrow> c_int \<Rightarrow> string \<Rightarrow> string list \<Rightarrow> ManagedProcess" where
  "ManagedProcess_new pf p cmd args =
     \<lparr>handle = ProcessHandle_default,
      info = ProcessInfo_default
               \<lparr>pid := p, command := cmd, arguments := args, state := NotStarted,
                start_time := os_now pf\<rparr>,
      io = ProcessIO_new, running = False, io_thread_active = False\<rparr>"

text \<open>\<open>start\<close> does not read its \<open>options\<close> argument; it is left out.\<close>

definition start :: "ManagedProcess \<Rightarrow> bool \<times> ManagedProcess" where
  "start p =
     (if running p then (False, p)
      else (True, p\<lparr>info := (info p)\<lparr>state := Running\<rparr>, running := True,
                     io_thread_active := True\<rparr>))"

text \<open>\<open>terminate\<close>, POSIX branch.\<close>

definition terminate :: "platform \<Rightarrow> ManagedProcess \<Rightarrow> bool \<Rightarrow> bool \<times> ManagedProcess" where
  "terminate pf p force =
     (if \<not> running p then (True, p)
      else
        let success = (sint (handle_pid (handle p)) > 0 \<and> os_kill pf (handle_pid (handle p)) force)
        in if success then
             (True, p\<lparr>running := False,
                      info := (info p)\<lparr>state := Terminated, end_time := os_now pf\<rparr>,
                      io_thread_active := False\<rparr>)
           else (False, p))"

text \<open>
  \<open>readOutput\<close> is a non-const member; the model returns the process beside the string
  so that what the call does to the buffers is part of its result.
\<close>

definition readOutput :: "ManagedProcess \<Rightarrow> nat \<Rightarrow> string \<times> ManagedProcess" where
  "readOutput p max_bytes =
     (if max_bytes = 0 then (getAllOutput (io p), p)
      else
        let output = getAllOutput (io p)
        in if length output \<le> max_bytes then (output, p)
           else (take max_bytes output, p))"

definition hasOutput :: "ManagedProcess \<Rightarrow> bool" where
  "hasOutput p = hasData (io p)"

definition getInfo :: "ManagedProcess \<Rightarrow> ProcessInfo" where
  "getInfo p = info p"

definition isRunning :: "ManagedProcess \<Rightarrow> bool" where
  "isRunning p = running p"

definition isComplete :: "ManagedProcess \<Rightarrow> bool" where
  "isComplete p \<longleftrightarrow>
     state (info p) = Completed \<or> state (info p) = Failed \<or> state (info p) = Terminated"

text \<open>
  One iteration of \<open>ioThreadFunction\<close>: with both descriptors closed (\<open>max_fd < 0\<close>) it
  sleeps and continues, without reaching the \<open>waitpid\<close> check.
\<close>

definition io_thread_iteration :: "platform \<Rightarrow> ManagedProcess \<Rightarrow> ManagedProcess" where
  "io_thread_iteration pf p =
     (if \<not> io_thread_active p then p
      else if sint (stdout_fd (handle p)) < 0 \<and> sint (stderr_fd (handle p)) < 0 then p
      else os_io_step pf p)"

text \<open>
  The polling loop of \<open>executeSync\<close>, \<open>while (process->isRunning()) sleep\<close>, with the
  I/O thread making one iteration between two polls.  \<open>None\<close>: the loop never ends.
\<close>

partial_function (option) wait_while_running ::
  "platform \<Rightarrow> ManagedProcess \<Rightarrow> ManagedProcess option" where
  "wait_while_running pf p =
     (if isRunning p then wait_while_running pf (io_thread_iteration pf p) else Some p)"

declare wait_while_running.simps [code]

subsection \<open>ShellImpl\<close>

text \<open>
  The members of \<open>ShellImpl\<close> that the modelled operations read or write.
  \<open>environment\<close> is the \<open>Environment\<close> member, a map from names to values.
\<close>

record shell =
  active_processes :: "c_int \<rightharpoonup> ManagedProcess"
  next_pid :: c_int
  shell_path :: string
  current_directory :: string
  environment :: "string \<rightharpoonup> string"

text \<open>
  Modelled from the spec: \<open>Environment::get\<close> and \<open>Environment::set\<close>, which
  \<open>i_shell.h\<close> declares and no source file defines; the environment is a mapping of
  variable name to value with unique keys, and a missing variable reads as the empty
  string.
\<close>

definition env_get :: "(string \<rightharpoonup> string) \<Rightarrow> string \<Rightarrow> string" where
  "env_get env name = (case env name of None \<Rightarrow> [] | Some v \<Rightarrow> v)"

definition env_set :: "(string \<rightharpoonup> string) \<Rightarrow> string \<Rightarrow> string \<Rightarrow> (string \<rightharpoonup> string)" where
  "env_set env name v = env(name \<mapsto> v)"

definition createProcess :: "platform \<Rightarrow> shell \<Rightarrow> string \<Rightarrow> string list \<Rightarrow> ManagedProcess" where
  "createProcess pf sh cmd args = ManagedProcess_new pf (next_pid sh) cmd args"

definition parseCommand :: "platform \<Rightarrow> shell \<Rightarrow> string \<Rightarrow> ParsedCommand" where
  "parseCommand pf sh cmd = parser pf (environment sh) cmd"

definition isBuiltinCommand :: "string \<Rightarrow> bool" where
  "isBuiltinCommand cmd \<longleftrightarrow>
     cmd \<in> set [''cd'', ''pwd'', ''echo'', ''exit'', ''export'', ''jobs'', ''kill'', ''help'']"

definition getProcessInfo :: "shell \<Rightarrow> c_int \<Rightarrow> ProcessInfo" where
  "getProcessInfo sh p =
     (case active_processes sh p of
        Some proc \<Rightarrow> getInfo proc
      | None \<Rightarrow> ProcessInfo_default\<lparr>pid := p, state := NotStarted\<rparr>)"

text \<open>
  \<open>getAllProcesses\<close> returns the entries in the iteration order of the
  \<open>unordered_map\<close>; the model gives the entry of each process id.
\<close>

definition getAllProcesses :: "shell \<Rightarrow> (c_int \<rightharpoonup> ProcessInfo)" where
  "getAllProcesses sh = (\<lambda>p. map_option getInfo (active_processes sh p))"

definition terminateProcess :: "platform \<Rightarrow> shell \<Rightarrow> c_int \<Rightarrow> bool \<Rightarrow> bool \<times> shell" where
  "terminateProcess pf sh p force =
     (case active_processes sh p of
        Some proc \<Rightarrow>
          (case terminate pf proc force of
             (r, proc') \<Rightarrow> (r, sh\<lparr>active_processes := (active_processes sh)(p \<mapsto> proc')\<rparr>))
      | None \<Rightarrow> (False, sh))"

definition shell_readOutput :: "shell \<Rightarrow> c_int \<Rightarrow> nat \<Rightarrow> string \<times> shell" where
  "shell_readOutput sh p max_bytes =
     (case active_processes sh p of
        Some proc \<Rightarrow>
          (case readOutput proc max_bytes of
             (out, proc') \<Rightarrow> (out, sh\<lparr>active_processes := (active_processes sh)(p \<mapsto> proc')\<rparr>))
      | None \<Rightarrow> ([], sh))"

definition shell_hasOutput :: "shell \<Rightarrow> c_int \<Rightarrow> bool" where
  "shell_hasOutput sh p =
     (case active_processes sh p of Some proc \<Rightarrow> hasOutput proc | None \<Rightarrow> False)"

definition getCurrentDirectory :: "shell \<Rightarrow> string" where
  "getCurrentDirectory sh = current_directory sh"

definition setCurrentDirectory :: "platform \<Rightarrow> shell \<Rightarrow> string \<Rightarrow> bool \<times> shell" where
  "setCurrentDirectory pf sh path =
     (if os_chdir pf path then
        (case os_getcwd pf path of
           Some cwd \<Rightarrow> (True, sh\<lparr>current_directory := cwd\<rparr>)
         | None \<Rightarrow> (False, sh))
      else (False, sh))"

definition cleanupCompletedProcesses :: "shell \<Rightarrow> shell" where
  "cleanupCompletedProcesses sh =
     sh\<lparr>active_processes :=
          (\<lambda>p. case active_processes sh p of
                  None \<Rightarrow> None
                | Some proc \<Rightarrow> if isComplete proc then None else Some proc)\<rparr>"

subsection \<open>Built-in commands\<close>

definition builtin_info :: "platform \<Rightarrow> string \<Rightarrow> string list \<Rightarrow> ProcessInfo" where
  "builtin_info pf cmd args =
     ProcessInfo_default\<lparr>command := cmd, arguments := args, start_time := os_now pf\<rparr>"

definition executeBuiltinCd :: "platform \<Rightarrow> shell \<Rightarrow> string list \<Rightarrow> ProcessInfo \<times> shell" where
  "executeBuiltinCd pf sh args =
     (let pinfo = builtin_info pf ''cd'' args;
          target_dir =
            (case args of
               [] \<Rightarrow> (let home = env_get (environment sh) ''HOME''
                      in if home = [] then ''/'' else home)
             | a # _ \<Rightarrow> a)
      in case setCurrentDirectory pf sh target_dir of
           (True, sh') \<Rightarrow>
             (pinfo\<lparr>state := Completed, exit_code := 0, end_time := os_now pf\<rparr>, sh')
         | (False, sh') \<Rightarrow>
             (pinfo\<lparr>state := Failed, exit_code := 1, end_time := os_now pf\<rparr>, sh'))"

definition executeBuiltinPwd :: "platform \<Rightarrow> string list \<Rightarrow> ProcessInfo" where
  "executeBuiltinPwd pf args =
     (builtin_info pf ''pwd'' args)\<lparr>state := Completed, exit_code := 0, end_time := os_now pf\<rparr>"

definition executeBuiltinEcho :: "platform \<Rightarrow> string list \<Rightarrow> ProcessInfo" where
  "executeBuiltinEcho pf args =
     (builtin_info pf ''echo'' args)\<lparr>state := Completed, exit_code := 0, end_time := os_now pf\<rparr>"

definition executeBuiltinExit :: "platform \<Rightarrow> string list \<Rightarrow> ProcessInfo" where
  "executeBuiltinExit pf args =
     (let code = (case args of
                    [] \<Rightarrow> 0
                  | a # _ \<Rightarrow> (case std_stoi pf a of Some n \<Rightarrow> n | None \<Rightarrow> 1))
      in (builtin_info pf ''exit'' args)
           \<lparr>state := Completed, exit_code := code, end_time := os_now pf\<rparr>)"

definition executeBuiltinJobs :: "platform \<Rightarrow> string list \<Rightarrow> ProcessInfo" where
  "executeBuiltinJobs pf args =
     (builtin_info pf ''jobs'' args)\<lparr>state := Completed, exit_code := 0, end_time := os_now pf\<rparr>"

definition executeBuiltinKill :: "platform \<Rightarrow> shell \<Rightarrow> string list \<Rightarrow> ProcessInfo \<times> shell" where
  "executeBuiltinKill pf sh args =
     (case (case args of
              [] \<Rightarrow> (1, sh)
            | a # _ \<Rightarrow>
                (case std_stoi pf a of
                   Some p \<Rightarrow>
                     (case terminateProcess pf sh p False of
                        (success, sh') \<Rightarrow> (if success then 0 else 1, sh'))
                 | None \<Rightarrow> (1, sh))) of
        (code, sh') \<Rightarrow>
          ((builtin_info pf ''kill'' args)
             \<lparr>exit_code := code, state := (if code = 0 then Completed else Failed),
              end_time := os_now pf\<rparr>, sh'))"

text \<open>
  The loop of \<open>export\<close>: an argument with a \<open>=\<close> sets the name before the first \<open>=\<close> to
  the text behind it; other arguments are skipped.
\<close>

fun export_args :: "(string \<rightharpoonup> string) \<Rightarrow> string list \<Rightarrow> (string \<rightharpoonup> string)" where
  "export_args env [] = env"
| "export_args env (arg # args) =
     (if CHR ''='' \<in> set arg then
        export_args
          (env_set env (takeWhile (\<lambda>c. c \<noteq> CHR ''='') arg)
                       (tl (dropWhile (\<lambda>c. c \<noteq> CHR ''='') arg)))
          args
      else export_args env args)"

definition executeBuiltinExport :: "platform \<Rightarrow> shell \<Rightarrow> string list \<Rightarrow> ProcessInfo \<times> shell" where
  "executeBuiltinExport pf sh args =
     ((builtin_info pf ''export'' args)
        \<lparr>state := Completed, exit_code := 0, end_time := os_now pf\<rparr>,
      sh\<lparr>environment := export_args (environment sh) args\<rparr>)"

text \<open>
  \<open>executeBuiltin\<close>; it has no branch for \<open>help\<close>, which ends in the final
  \<open>Failed\<close> result.  The \<open>options\<close> argument is not read.
\<close>

definition executeBuiltin :: "platform \<Rightarrow> shell \<Rightarrow> string \<Rightarrow> string list \<Rightarrow> ProcessInfo \<times> shell" where
  "executeBuiltin pf sh cmd args =
     (if cmd = ''cd'' then executeBuiltinCd pf sh args
      else if cmd = ''pwd'' then (executeBuiltinPwd pf args, sh)
      else if cmd = ''echo'' then (executeBuiltinEcho pf args, sh)
      else if cmd = ''exit'' then (executeBuiltinExit pf args, sh)
      else if cmd = ''jobs'' then (executeBuiltinJobs pf args, sh)
      else if cmd = ''kill'' then executeBuiltinKill pf sh args
      else if cmd = ''export'' then executeBuiltinExport pf sh args
      else (ProcessInfo_default\<lparr>state := Failed, exit_code := 1\<rparr>, sh))"

subsection \<open>Execution\<close>

text \<open>
  \<open>executeSync\<close>.  The result is \<open>None\<close> when the polling loop never ends; the shell
  beside it is the shell as the call has left it by then.  \<open>std::make_unique\<close> never
  yields null, so the \<open>!process\<close> branch is not taken.
\<close>

definition executeSync :: "platform \<Rightarrow> shell \<Rightarrow> string \<Rightarrow> ProcessInfo option \<times> shell" where
  "executeSync pf sh cmd =
     (let parsed = parseCommand pf sh cmd
      in if \<not> isValid parsed then
           (Some (ProcessInfo_default\<lparr>state := Failed, exit_code := - 1\<rparr>), sh)
         else if isBuiltinCommand (executable parsed) then
           (case executeBuiltin pf sh (executable parsed) (parsed_arguments parsed) of
              (pinfo, sh') \<Rightarrow> (Some pinfo, sh'))
         else
           let process = createProcess pf sh (executable parsed) (parsed_arguments parsed);
               sh1 = sh\<lparr>next_pid := next_pid sh + 1\<rparr>;
               process1 = snd (start process)
           in (map_option getInfo (wait_while_running pf process1), sh1))"

text \<open>
  \<open>executeAsync\<close> and \<open>executeInteractive\<close>; they differ in the two callbacks only,
  which the model does not hold.
\<close>

definition executeAsync :: "platform \<Rightarrow> shell \<Rightarrow> string \<Rightarrow> c_int \<times> shell" where
  "executeAsync pf sh cmd =
     (let parsed = parseCommand pf sh cmd
      in if \<not> isValid parsed then (- 1, sh)
         else
           let process = createProcess pf sh (executable parsed) (parsed_arguments parsed);
               p = next_pid sh;
               sh1 = sh\<lparr>next_pid := next_pid sh + 1\<rparr>
           in case start process of
                (False, _) \<Rightarrow> (- 1, sh1)
              | (True, process1) \<Rightarrow>
                  (p, sh1\<lparr>active_processes := (active_processes sh1)(p \<mapsto> process1)\<rparr>))"

definition executeInteractive :: "platform \<Rightarrow> shell \<Rightarrow> string \<Rightarrow> c_int \<times> shell" where
  "executeInteractive pf sh cmd =
     (let parsed = parseCommand pf sh cmd
      in if \<not> isValid parsed then (- 1, sh)
         else
           let process = createProcess pf sh (executable parsed) (parsed_arguments parsed);
               p = next_pid sh;
               sh1 = sh\<lparr>next_pid := next_pid sh + 1\<rparr>
           in case start process of
                (False, _) \<Rightarrow> (- 1, sh1)
              | (True, process1) \<Rightarrow>
                  (p, sh1\<lparr>active_processes := (active_processes sh1)(p \<mapsto> process1)\<rparr>))"

subsection \<open>A concrete platform\<close>

text \<open>
  Modelled from the spec: \<open>CommandParser::parse\<close>, whose body is not among the sources.
  The spec has it tokenize on whitespace and return an invalid result (\<open>executable\<close>
  empty) for blank input.  This stand-in splits at blanks and takes the first token as the
  executable; it does no quoting and no variable expansion.  It serves for concrete
  instances only: the theorems below are about every parser.
\<close>

fun split_blanks :: "string \<Rightarrow> string \<Rightarrow> string list" where
  "split_blanks tok [] = (if tok = [] then [] else [tok])"
| "split_blanks tok (c # cs) =
     (if c = CHR '' '' then (if tok = [] then split_blanks [] cs else tok # split_blanks [] cs)
      else split_blanks (tok @ [c]) cs)"

definition blank_parser :: "(string \<rightharpoonup> string) \<Rightarrow> string \<Rightarrow> ParsedCommand" where
  "blank_parser env cmd =
     (case split_blanks [] cmd of
        [] \<Rightarrow> \<lparr>executable = [], parsed_arguments = [], input_redirections = [],
               output_redirections = [], append_output = False, run_in_background = False\<rparr>
      | exe # args \<Rightarrow>
              \<lparr>executable = exe, parsed_arguments = args, input_redirections = [],
               output_redirections = [], append_output = False, run_in_background = False\<rparr>)"

text \<open>
  A platform on which \<open>/\<close> and \<open>/tmp\<close> are the only directories, no signal can be sent,
  and the clock reads 0.
\<close>

definition test_platform :: platform where
  "test_platform =
     \<lparr>os_chdir = (\<lambda>path. path \<in> set [''/'', ''/tmp'']),
      os_getcwd = (\<lambda>path. Some path),
      os_kill = (\<lambda>p force. False),
      os_now = 0,
      os_io_step = (\<lambda>p. p),
      std_stoi = (\<lambda>s. None),
      parser = blank_parser\<rparr>"

definition test_shell :: shell where
  "test_shell =
     \<lparr>active_processes = Map.empty, next_pid = 1000, shell_path = ''/bin/sh'',
      current_directory = ''/tmp'', environment = Map.empty\<rparr>"

text \<open>A started process whose I/O thread has appended the two bytes \<open>hi\<close>.\<close>

definition process_with_output :: ManagedProcess where
  "process_with_output =
     (snd (start (ManagedProcess_new test_platform 1000 ''ls'' [])))
       \<lparr>io := appendStdout ProcessIO_new ''hi''\<rparr>"

section \<open>Properties of the memory pool\<close>

lemma scan_free_Some:
  "scan_free bits i hi = Some k \<Longrightarrow> i \<le> k \<and> k < hi \<and> \<not> bits ! k"
proof (induction bits i hi rule: scan_free.induct)
  case (1 bits i hi)
  show ?case
  proof (cases "i < hi \<and> bits ! i")
    case True
    with "1.prems" have "scan_free bits (Suc i) hi = Some k"
      by (simp add: scan_free.simps [of bits i hi])
    with "1.IH" True show ?thesis by auto
  next
    case False
    with "1.prems" show ?thesis
      by (auto simp: scan_free.simps [of bits i hi] split: if_splits)
  qed
qed

lemma scan_free_None:
  "scan_free bits i hi = None \<longleftrightarrow> (\<forall>j. i \<le> j \<and> j < hi \<longrightarrow> bits ! j)"
proof (induction bits i hi rule: scan_free.induct)
  case (1 bits i hi)
  show ?case
  proof (cases "i < hi")
    case False
    then show ?thesis by (auto simp: scan_free.simps [of bits i hi])
  next
    case True
    show ?thesis
    proof (cases "bits ! i")
      case False
      with True show ?thesis
        by (auto simp: scan_free.simps [of bits i hi])
    next
      case bit: True
      have "scan_free bits i hi = scan_free bits (Suc i) hi"
        using True bit by (simp add: scan_free.simps [of bits i hi])
      moreover have "(\<forall>j. Suc i \<le> j \<and> j < hi \<longrightarrow> bits ! j) \<longleftrightarrow> (\<forall>j. i \<le> j \<and> j < hi \<longrightarrow> bits ! j)"
        using bit by (metis Suc_leD Suc_leI le_neq_implies_less)
      ultimately show ?thesis using "1.IH" True bit by simp
    qed
  qed
qed

lemma find_free_slot_cases:
  assumes "next_free s \<le> PoolSize s" and "find_free_slot s = (k, s1)"
  shows "(k < PoolSize s \<and> \<not> used s ! k \<and> s1 = s\<lparr>next_free := (k + 1) mod PoolSize s\<rparr>)
       \<or> (k = PoolSize s \<and> s1 = s \<and> (\<forall>j < PoolSize s. used s ! j))"
proof (cases "scan_free (used s) (next_free s) (PoolSize s)")
  case (Some i)
  with assms(2) have "k = i" "s1 = s\<lparr>next_free := (i + 1) mod PoolSize s\<rparr>"
    by (auto simp: find_free_slot_def)
  with scan_free_Some [OF Some] show ?thesis by simp
next
  case hi: None
  show ?thesis
  proof (cases "scan_free (used s) 0 (next_free s)")
    case (Some i)
    with hi assms(2) have "k = i" "s1 = s\<lparr>next_free := (i + 1) mod PoolSize s\<rparr>"
      by (auto simp: find_free_slot_def)
    with scan_free_Some [OF Some] assms(1) show ?thesis by simp
  next
    case None
    with hi assms(2) have "k = PoolSize s" "s1 = s"
      by (auto simp: find_free_slot_def)
    moreover have "\<forall>j < PoolSize s. used s ! j"
      using hi None unfolding scan_free_None by (metis le0 not_le_imp_less)
    ultimately show ?thesis by simp
  qed
qed

lemma pool_allocate_cases:
  assumes "next_free s \<le> PoolSize s"
  shows "(\<exists>k < PoolSize s. \<not> used s ! k \<and>
            pool_allocate s =
              (Some (slot_address s k),
               s\<lparr>next_free := (k + 1) mod PoolSize s, used := (used s)[k := True],
                  allocated_count := allocated_count s + 1\<rparr>))
       \<or> ((\<forall>j < PoolSize s. used s ! j) \<and> pool_allocate s = (None, s))"
proof -
  obtain k s1 where f: "find_free_slot s = (k, s1)" by (cases "find_free_slot s")
  from find_free_slot_cases [OF assms f] show ?thesis
  proof
    assume h: "k < PoolSize s \<and> \<not> used s ! k \<and> s1 = s\<lparr>next_free := (k + 1) mod PoolSize s\<rparr>"
    then have "pool_allocate s =
              (Some (slot_address s k),
               s\<lparr>next_free := (k + 1) mod PoolSize s, used := (used s)[k := True],
                  allocated_count := allocated_count s + 1\<rparr>)"
      using f by (simp add: pool_allocate_def PoolSize_def slot_address_def)
    with h show ?thesis by blast
  next
    assume h: "k = PoolSize s \<and> s1 = s \<and> (\<forall>j < PoolSize s. used s ! j)"
    then have "pool_allocate s = (None, s)"
      using f by (simp add: pool_allocate_def)
    with h show ?thesis by blast
  qed
qed

lemma popcount_le: "popcount bits \<le> length bits"
  by (simp add: popcount_def)

lemma popcount_set:
  "k < length bits \<Longrightarrow> \<not> bits ! k \<Longrightarrow> popcount (bits[k := True]) = Suc (popcount bits)"
proof (induction bits arbitrary: k)
  case Nil
  then show ?case by simp
next
  case (Cons b bs)
  then show ?case by (cases k) (auto simp: popcount_def)
qed

lemma popcount_clear:
  "k < length bits \<Longrightarrow> bits ! k \<Longrightarrow> Suc (popcount (bits[k := False])) = popcount bits"
proof (induction bits arbitrary: k)
  case Nil
  then show ?case by simp
next
  case (Cons b bs)
  then show ?case by (cases k) (auto simp: popcount_def)
qed

lemma popcount_full: "popcount bits = length bits \<longleftrightarrow> (\<forall>j < length bits. bits ! j)"
proof (induction bits)
  case Nil
  then show ?case by (simp add: popcount_def)
next
  case (Cons b bs)
  have le: "popcount bs \<le> length bs" by (rule popcount_le)
  then have ne: "popcount bs \<noteq> Suc (length bs)" by linarith
  have "(\<forall>j < length (b # bs). (b # bs) ! j) \<longleftrightarrow> b \<and> (\<forall>j < length bs. bs ! j)"
    by (auto simp: nth_Cons split: nat.splits)
  moreover have "popcount (b # bs) = length (b # bs) \<longleftrightarrow> b \<and> popcount bs = length bs"
    using ne by (cases b) (auto simp: popcount_def)
  ultimately show ?case using Cons.IH by simp
qed

lemma pool_inv_init:
  "0 < n \<Longrightarrow> n < 2 ^ 64 \<Longrightarrow> 0 < bs \<Longrightarrow> pool_inv (pool_init base bs n)"
  by (simp add: pool_inv_def pool_init_def PoolSize_def popcount_def)

lemma unat_succ_count:
  fixes c :: size_t
  assumes "Suc (unat c) < 2 ^ 64"
  shows "unat (c + 1) = Suc (unat c)"
  using assms by (simp add: unat_word_ariths)

lemma unat_pred_count:
  fixes c :: size_t
  assumes "0 < unat c"
  shows "Suc (unat (c - 1)) = unat c"
  using assms by (metis Suc_pred' unat_minus_one unat_eq_zero less_numeral_extra(3))

lemma pool_inv_allocate:
  assumes "pool_inv s"
  shows "pool_inv (snd (pool_allocate s))"
proof -
  from assms have nf: "next_free s \<le> PoolSize s" by (simp add: pool_inv_def)
  from pool_allocate_cases [OF nf] show ?thesis
  proof (elim disjE exE conjE)
    fix k
    assume k: "k < PoolSize s" "\<not> used s ! k"
      and eq: "pool_allocate s =
              (Some (slot_address s k),
               s\<lparr>next_free := (k + 1) mod PoolSize s, used := (used s)[k := True],
                  allocated_count := allocated_count s + 1\<rparr>)"
    have pc: "popcount ((used s)[k := True]) = Suc (popcount (used s))"
      using k by (simp add: popcount_set PoolSize_def)
    have "popcount ((used s)[k := True]) \<le> PoolSize s"
      using popcount_le [of "(used s)[k := True]"] by (simp add: PoolSize_def)
    with pc assms have "Suc (unat (allocated_count s)) < 2 ^ 64"
      by (simp add: pool_inv_def)
    then have "unat (allocated_count s + 1) = Suc (unat (allocated_count s))"
      by (rule unat_succ_count)
    with assms pc eq show ?thesis
      by (simp add: pool_inv_def PoolSize_def)
  next
    assume "pool_allocate s = (None, s)"
    with assms show ?thesis by simp
  qed
qed

lemma pool_deallocate_cases:
  "pool_deallocate s ptr = s \<or>
   (\<exists>a k. ptr = Some a \<and> storage_begin s \<le> a \<and> a < storage_begin s + PoolSize s * block_size s \<and>
      k = (a - storage_begin s) div block_size s \<and> k < PoolSize s \<and> used s ! k \<and>
      pool_deallocate s ptr =
        s\<lparr>used := (used s)[k := False], allocated_count := allocated_count s - 1,
           next_free := min k (next_free s)\<rparr>)"
  by (cases ptr) (auto simp: pool_deallocate_def Let_def min_def)

lemma pool_inv_deallocate:
  assumes "pool_inv s"
  shows "pool_inv (pool_deallocate s ptr)"
proof -
  from pool_deallocate_cases [of s ptr] show ?thesis
  proof (elim disjE exE conjE)
    assume "pool_deallocate s ptr = s"
    with assms show ?thesis by simp
  next
    fix a k
    assume k: "k < PoolSize s" "used s ! k"
      and eq: "pool_deallocate s ptr =
        s\<lparr>used := (used s)[k := False], allocated_count := allocated_count s - 1,
           next_free := min k (next_free s)\<rparr>"
    have pc: "Suc (popcount ((used s)[k := False])) = popcount (used s)"
      using k by (simp add: popcount_clear PoolSize_def)
    with assms have "0 < unat (allocated_count s)" by (simp add: pool_inv_def)
    then have "Suc (unat (allocated_count s - 1)) = unat (allocated_count s)"
      by (rule unat_pred_count)
    with assms pc k eq show ?thesis
      by (simp add: pool_inv_def PoolSize_def)
  qed
qed

lemma slot_of_slot_address:
  "0 < block_size s \<Longrightarrow> slot_of s (slot_address s k) = k"
  by (simp add: slot_of_def slot_address_def)

lemma slot_address_inj:
  "0 < block_size s \<Longrightarrow> slot_address s j = slot_address s k \<Longrightarrow> j = k"
  by (simp add: slot_address_def)

lemma live_inv_allocate:
  assumes "live_inv (s, live)"
  shows "live_inv (pool_step (s, live) Allocate)"
proof -
  from assms have nf: "next_free s \<le> PoolSize s" and bs: "0 < block_size s"
    and d: "distinct live"
    and l: "\<And>p. p \<in> set live \<Longrightarrow> \<exists>k < PoolSize s. p = slot_address s k \<and> used s ! k"
    by (auto simp: live_inv_def)
  from pool_allocate_cases [OF nf] show ?thesis
  proof (elim disjE exE conjE)
    assume "pool_allocate s = (None, s)"
    with assms show ?thesis by simp
  next
    fix k
    let ?s' = "s\<lparr>next_free := (k + 1) mod PoolSize s, used := (used s)[k := True],
                  allocated_count := allocated_count s + 1\<rparr>"
    assume k: "k < PoolSize s" "\<not> used s ! k"
      and eq: "pool_allocate s = (Some (slot_address s k), ?s')"
    have fresh: "slot_address s k \<notin> set live"
    proof
      assume "slot_address s k \<in> set live"
      from l [OF this] obtain j where "slot_address s k = slot_address s j" "used s ! j"
        by blast
      with slot_address_inj [OF bs] k show False by metis
    qed
    have sa: "\<And>j. slot_address ?s' j = slot_address s j"
      by (simp add: slot_address_def)
    have ps: "PoolSize ?s' = PoolSize s" by (simp add: PoolSize_def)
    have keep: "\<And>p. p \<in> set live \<Longrightarrow> \<exists>j < PoolSize ?s'. p = slot_address ?s' j \<and> used ?s' ! j"
    proof -
      fix p assume "p \<in> set live"
      from l [OF this] obtain j where j: "j < PoolSize s" "p = slot_address s j" "used s ! j"
        by blast
      with k have "j \<noteq> k" by auto
      with j have "used ?s' ! j" by simp
      with j sa ps show "\<exists>j < PoolSize ?s'. p = slot_address ?s' j \<and> used ?s' ! j" by metis
    qed
    have new: "\<exists>j < PoolSize ?s'. slot_address s k = slot_address ?s' j \<and> used ?s' ! j"
      using k sa ps by (intro exI [of _ k]) (simp add: PoolSize_def)
    have "(k + 1) mod PoolSize s < PoolSize s"
      using k by (intro mod_less_divisor) simp
    then have nf': "next_free ?s' \<le> PoolSize ?s'"
      by (simp add: PoolSize_def)
    have "pool_step (s, live) Allocate = (?s', slot_address s k # live)"
      using eq by simp
    moreover have "live_inv (?s', slot_address s k # live)"
      unfolding live_inv_def using nf' bs d fresh keep new by auto
    ultimately show ?thesis by simp
  qed
qed

lemma live_inv_deallocate:
  assumes "live_inv (s, live)"
  shows "live_inv (pool_step (s, live) (Deallocate ptr))"
proof -
  from assms have nf: "next_free s \<le> PoolSize s" and bs: "0 < block_size s"
    and d: "distinct live"
    and l: "\<And>p. p \<in> set live \<Longrightarrow> \<exists>k < PoolSize s. p = slot_address s k \<and> used s ! k"
    by (auto simp: live_inv_def)
  let ?s' = "pool_deallocate s ptr"
  have frame: "PoolSize ?s' = PoolSize s \<and> block_size ?s' = block_size s \<and>
               storage_begin ?s' = storage_begin s \<and> next_free ?s' \<le> next_free s"
    using pool_deallocate_cases [of s ptr] by (auto simp: PoolSize_def)
  then have sa: "\<And>j. slot_address ?s' j = slot_address s j"
    by (simp add: slot_address_def)
  have keep: "\<And>p. p \<in> set live \<Longrightarrow> used ?s' ! slot_of ?s' p \<Longrightarrow>
                \<exists>j < PoolSize ?s'. p = slot_address ?s' j \<and> used ?s' ! j"
  proof -
    fix p assume "p \<in> set live" and u: "used ?s' ! slot_of ?s' p"
    from l [OF this(1)] obtain j where j: "j < PoolSize s" "p = slot_address s j"
      by blast
    have "slot_of ?s' p = j"
      using j sa frame bs slot_of_slot_address [of ?s' j] by simp
    with u j sa frame show "\<exists>j < PoolSize ?s'. p = slot_address ?s' j \<and> used ?s' ! j"
      by metis
  qed
  have "live_inv (?s', filter (\<lambda>p. used ?s' ! slot_of ?s' p) live)"
    unfolding live_inv_def using frame nf bs d keep by auto
  then show ?thesis by (simp add: Let_def)
qed

lemma live_inv_step: "live_inv st \<Longrightarrow> live_inv (pool_step st op)"
  by (cases st; cases op) (simp_all only: live_inv_allocate live_inv_deallocate)

lemma live_inv_foldl: "live_inv st \<Longrightarrow> live_inv (foldl pool_step st ops)"
  by (induction ops arbitrary: st) (simp_all add: live_inv_step)

lemma live_inv_start: "0 < bs \<Longrightarrow> live_inv (pool_init base bs n, [])"
  by (simp add: live_inv_def pool_init_def PoolSize_def)

lemma pool_inv_run:
  assumes "0 < n" and "n < 2 ^ 64" and "0 < bs"
  shows "pool_inv (fst (pool_run (pool_init base bs n) ops))"
proof -
  have step: "pool_inv (fst st) \<Longrightarrow> pool_inv (fst (pool_step st op))" for st op
    using pool_inv_allocate [of "fst st"] pool_inv_deallocate [of "fst st"]
    by (cases st; cases op) (auto simp: Let_def split: prod.splits option.splits)
  have "pool_inv (fst st) \<Longrightarrow> pool_inv (fst (foldl pool_step st ops))" for st
    by (induction ops arbitrary: st) (simp_all add: step)
  from this [of "(pool_init base bs n, [])"] pool_inv_init [OF assms, of base]
  show ?thesis by (simp add: pool_run_def)
qed

text \<open>
  Claim C4.  Run any sequence of \<open>allocate\<close> and \<open>deallocate\<close> calls on a fresh pool and
  keep, beside the pool, the list of the addresses that \<open>allocate\<close> has handed out and
  whose slot bit no \<open>deallocate\<close> has cleared since.  That list never holds an address
  twice, and the bit of every address in it is set: \<open>allocate\<close> does not return an address
  again while its bit is set.
\<close>

theorem pool_live_allocations_distinct:
  assumes "0 < bs"
  shows "distinct (snd (pool_run (pool_init base bs n) ops)) \<and>
         (\<forall>p \<in> set (snd (pool_run (pool_init base bs n) ops)).
            used (fst (pool_run (pool_init base bs n) ops))
              ! slot_of (fst (pool_run (pool_init base bs n) ops)) p)"
proof -
  obtain s live where r: "pool_run (pool_init base bs n) ops = (s, live)"
    by (cases "pool_run (pool_init base bs n) ops")
  have "live_inv (s, live)"
    using live_inv_foldl [OF live_inv_start [OF assms], of base n ops] r
    by (simp add: pool_run_def)
  then have "distinct live" and bs: "0 < block_size s"
    and l: "\<And>p. p \<in> set live \<Longrightarrow> \<exists>k < PoolSize s. p = slot_address s k \<and> used s ! k"
    by (auto simp: live_inv_def)
  moreover have "\<forall>p \<in> set live. used s ! slot_of s p"
    using l slot_of_slot_address [OF bs] by metis
  ultimately show ?thesis using r by simp
qed


theorem pool_live_allocations_distinct_witness:
  "(0::nat) < 8 \<and>
   snd (pool_run (pool_init 4096 8 2)
          [Allocate, Allocate, Allocate, Deallocate (Some 4096), Allocate]) = [4096, 4104] \<and>
   distinct (snd (pool_run (pool_init 4096 8 2)
          [Allocate, Allocate, Allocate, Deallocate (Some 4096), Allocate]))"
  using pool_live_allocations_distinct [of 8 4096 2
          "[Allocate, Allocate, Allocate, Deallocate (Some 4096), Allocate]"]
  by code_simp

text \<open>
  Claim C5.  In every state of a pool, \<open>allocate\<close> returns \<open>nullptr\<close> exactly when all
  \<open>PoolSize\<close> bits are set, which is exactly when \<open>allocated() == PoolSize\<close>; otherwise it
  returns the address of a slot whose bit was clear.  The call is a total function (it never
  waits) and the pool has the same number of slots afterwards.
\<close>

theorem pool_allocate_null_iff_exhausted:
  assumes "pool_inv s"
  shows "(fst (pool_allocate s) = None \<longleftrightarrow> (\<forall>j < PoolSize s. used s ! j))
       \<and> ((\<forall>j < PoolSize s. used s ! j) \<longleftrightarrow> allocated s = of_nat (PoolSize s))
       \<and> (\<forall>p. fst (pool_allocate s) = Some p \<longrightarrow>
            (\<exists>k < PoolSize s. p = slot_address s k \<and> \<not> used s ! k))
       \<and> PoolSize (snd (pool_allocate s)) = PoolSize s"
proof -
  from assms have nf: "next_free s \<le> PoolSize s" and n: "PoolSize s < 2 ^ 64"
    and c: "unat (allocated_count s) = popcount (used s)"
    by (simp_all add: pool_inv_def)
  have "unat (of_nat (PoolSize s) :: size_t) = PoolSize s"
    using n by (simp add: unat_of_nat)
  then have "allocated s = of_nat (PoolSize s) \<longleftrightarrow> unat (allocated_count s) = PoolSize s"
    unfolding allocated_def by (simp add: word_unat_eq_iff)
  then have full: "(\<forall>j < PoolSize s. used s ! j) \<longleftrightarrow> allocated s = of_nat (PoolSize s)"
    using c popcount_full [of "used s"] by (simp add: PoolSize_def)
  from pool_allocate_cases [OF nf] show ?thesis
  proof (elim disjE exE conjE)
    fix k
    assume k: "k < PoolSize s" "\<not> used s ! k"
      and eq: "pool_allocate s =
              (Some (slot_address s k),
               s\<lparr>next_free := (k + 1) mod PoolSize s, used := (used s)[k := True],
                  allocated_count := allocated_count s + 1\<rparr>)"
    from k have "\<not> (\<forall>j < PoolSize s. used s ! j)" by blast
    with k eq full show ?thesis by (auto simp: PoolSize_def)
  next
    assume "\<forall>j < PoolSize s. used s ! j" "pool_allocate s = (None, s)"
    with full show ?thesis by simp
  qed
qed

theorem pool_allocate_null_iff_exhausted_witness:
  "pool_inv pool_full2 \<and> fst (pool_allocate pool_full2) = None \<and>
   allocated pool_full2 = of_nat (PoolSize pool_full2) \<and>
   pool_inv (pool_init 4096 8 2) \<and>
   fst (pool_allocate (pool_init 4096 8 2)) = Some 4096"
proof -
  have a: "pool_inv pool_full2"
    by (simp add: pool_inv_def pool_full2_def PoolSize_def popcount_def)
  have b: "pool_inv (pool_init 4096 8 2)"
    by (simp add: pool_inv_init)
  have c: "\<forall>j < PoolSize pool_full2. used pool_full2 ! j"
    by (simp add: pool_full2_def PoolSize_def nth_Cons split: nat.splits)
  have d: "fst (pool_allocate (pool_init 4096 8 2)) = Some 4096"
    by code_simp
  show ?thesis
    using pool_allocate_null_iff_exhausted [OF a] pool_allocate_null_iff_exhausted [OF b]
      a b c d by blast
qed

text \<open>
  Claim C6, as amended.  \<open>deallocate(ptr)\<close> leaves the whole pool (bitmap, counter and
  cursor) unchanged when \<open>ptr\<close> is null, lies outside the backing storage, or lies inside it
  at an address whose slot \<open>(ptr - storage_begin) / sizeof(StorageBlock)\<close> is free.
\<close>

theorem pool_deallocate_outside_or_free_noop:
  assumes "ptr = None \<or>
           (\<exists>a. ptr = Some a \<and>
              (a < storage_begin s \<or> storage_begin s + PoolSize s * block_size s \<le> a \<or>
               \<not> used s ! ((a - storage_begin s) div block_size s)))"
  shows "pool_deallocate s ptr = s"
  using assms by (auto simp: pool_deallocate_def Let_def)

theorem pool_deallocate_outside_or_free_noop_witness:
  "pool_deallocate (snd (pool_allocate (pool_init 4096 8 2))) (Some 4095)
     = snd (pool_allocate (pool_init 4096 8 2)) \<and>
   pool_deallocate (snd (pool_allocate (pool_init 4096 8 2))) (Some 4112)
     = snd (pool_allocate (pool_init 4096 8 2)) \<and>
   pool_deallocate (snd (pool_allocate (pool_init 4096 8 2))) (Some 4104)
     = snd (pool_allocate (pool_init 4096 8 2))"
proof -
  let ?s = "snd (pool_allocate (pool_init 4096 8 2))"
  have s: "?s = \<lparr>storage_begin = 4096, block_size = 8, used = [True, False],
                 next_free = 1, allocated_count = 1\<rparr>"
    by code_simp
  have 1: "(4095::nat) < storage_begin ?s" by (simp add: s)
  have 2: "storage_begin ?s + PoolSize ?s * block_size ?s \<le> (4112::nat)"
    by (simp add: s PoolSize_def)
  have 3: "\<not> used ?s ! ((4104 - storage_begin ?s) div block_size ?s)"
    by (simp add: s)
  show ?thesis
    using pool_deallocate_outside_or_free_noop [of "Some 4095" ?s]
      pool_deallocate_outside_or_free_noop [of "Some 4112" ?s]
      pool_deallocate_outside_or_free_noop [of "Some 4104" ?s] 1 2 3
    by blast
qed

text \<open>
  Claim C6 as stated does not hold: the only address \<open>allocate\<close> has returned is 4096, yet
  \<open>deallocate\<close> of the address 4097, which lies inside the same 8-byte block, clears the bit
  of slot 0 and decrements the counter.
\<close>

theorem pool_deallocate_interior_pointer_counterexample:
  "fst (pool_allocate (pool_init 4096 8 2)) = Some 4096 \<and>
   used (snd (pool_allocate (pool_init 4096 8 2))) = [True, False] \<and>
   allocated_count (snd (pool_allocate (pool_init 4096 8 2))) = 1 \<and>
   used (pool_deallocate (snd (pool_allocate (pool_init 4096 8 2))) (Some 4097))
     = [False, False] \<and>
   allocated_count (pool_deallocate (snd (pool_allocate (pool_init 4096 8 2))) (Some 4097))
     = 0"
  by code_simp

section \<open>Properties of the stack allocator\<close>

lemma split_mask: "(y AND NOT m) + (y AND m) = (y :: size_t)"
  by (metis (no_types, lifting) ext and.idem and_eq_not_not_or
    bit.conj_disj_distrib disjunctive_add_eq_or word_and_not
    word_ao_absorbs(6) word_bw_comms(1))

lemma low_le: "unat ((y::size_t) AND 15) \<le> 15"
  by (metis (no_types, lifting) and.commute le_unat_uoi linorder_le_cases
    of_nat_numeral word_and_le2 word_le_nat_alt)

lemma split_unat: "unat ((y::size_t) AND NOT 15) + unat (y AND 15) = unat y"
  by (metis split_mask unat_plus_simple word_and_le2)

lemma align_up_bounds:
  fixes x :: size_t
  assumes "unat x + 15 < 2 ^ 64"
  shows "unat x \<le> unat (align_up max_align x) \<and> unat (align_up max_align x) \<le> unat x + 15"
proof -
  let ?y = "x + 15"
  have y: "unat ?y = unat x + 15"
    using assms by (simp add: unat_word_ariths)
  have a: "align_up max_align x = ?y AND NOT 15"
    by (simp add: align_up_def max_align_def add.commute)
  from y a low_le [of ?y] split_unat [of ?y] show ?thesis by simp
qed

lemma stack_allocate_frame:
  "stack_size (snd (stack_allocate s sz al)) = stack_size s \<and>
   stack_begin (snd (stack_allocate s sz al)) = stack_begin s"
  by (simp add: stack_allocate_def Let_def)

lemma stack_allocate_bump:
  assumes inv: "stack_top s \<le> stack_size s"
    and ok: "unat (stack_size s) + unat sz + 30 < 2 ^ 64"
  shows "stack_top s \<le> stack_top (snd (stack_allocate s sz al)) \<and>
         stack_top (snd (stack_allocate s sz al)) \<le> stack_size s"
proof -
  let ?size = "align_up max_align sz"
  let ?aligned = "align_up max_align (stack_top s)"
  from inv have t: "unat (stack_top s) \<le> unat (stack_size s)"
    by (simp add: word_le_nat_alt)
  with ok have "unat (stack_top s) + 15 < 2 ^ 64" by simp
  from align_up_bounds [OF this]
  have a: "unat (stack_top s) \<le> unat ?aligned" "unat ?aligned \<le> unat (stack_top s) + 15"
    by simp_all
  from ok have "unat sz + 15 < 2 ^ 64" by simp
  from align_up_bounds [OF this]
  have b: "unat ?size \<le> unat sz + 15" by simp
  from a b t ok have "unat ?aligned + unat ?size < 2 ^ 64" by simp
  then have sum: "unat (?aligned + ?size) = unat ?aligned + unat ?size"
    by (simp add: unat_word_ariths)
  with a have "unat (stack_top s) \<le> unat (?aligned + ?size)" by simp
  then have "stack_top s \<le> ?aligned + ?size" by (simp add: word_le_nat_alt)
  with inv show ?thesis
    by (simp add: stack_allocate_def Let_def not_less)
qed

lemma stack_run_bump:
  assumes "stack_top s \<le> stack_size s" and "\<forall>op \<in> set ops. bump_only (stack_size s) op"
  shows "stack_top s \<le> stack_top (foldl stack_step s ops) \<and>
         stack_top (foldl stack_step s ops) \<le> stack_size s"
  using assms
proof (induction ops arbitrary: s)
  case Nil
  then show ?case by simp
next
  case (Cons op ops)
  from Cons.prems(2) obtain sz al where op: "op = StackAllocate sz al"
    and ok: "unat (stack_size s) + unat sz + 30 < 2 ^ 64"
    by (cases op) auto
  let ?s1 = "snd (stack_allocate s sz al)"
  from stack_allocate_bump [OF Cons.prems(1) ok, of al]
  have s1: "stack_top s \<le> stack_top ?s1" "stack_top ?s1 \<le> stack_size s" by simp_all
  have sz1: "stack_size ?s1 = stack_size s" by (simp add: stack_allocate_frame)
  have "stack_top ?s1 \<le> stack_top (foldl stack_step ?s1 ops) \<and>
        stack_top (foldl stack_step ?s1 ops) \<le> stack_size ?s1"
    using Cons.IH [of ?s1] s1 sz1 Cons.prems(2) by simp
  with s1 sz1 op show ?case by (auto intro: order_trans)
qed

text \<open>
  Claim C3, as amended.  Over every sequence of \<open>allocate\<close> calls whose sizes do not wrap
  the \<open>size_t\<close> arithmetic, \<open>used()\<close> never decreases; \<open>deallocate_to(ptr)\<close> with \<open>ptr\<close>
  inside the buffer sets \<open>used()\<close> to the offset of \<open>ptr\<close>; and after \<open>reset()\<close>,
  \<open>used() == 0\<close>.
\<close>

theorem stack_used_nondecreasing_under_allocate:
  assumes "stack_used s \<le> stack_size s"
    and "\<forall>op \<in> set ops. bump_only (stack_size s) op"
  shows "stack_used s \<le> stack_used (stack_run s ops) \<and>
         stack_used (stack_reset (stack_run s ops)) = 0 \<and>
         (\<forall>a. stack_begin s \<le> a \<and> a < stack_begin s + unat (stack_size s) \<longrightarrow>
              stack_used (deallocate_to s (Some a)) = of_nat (a - stack_begin s))"
  using stack_run_bump [of s ops] assms
  by (simp add: stack_used_def stack_run_def stack_reset_def deallocate_to_def)

theorem stack_used_nondecreasing_under_allocate_witness:
  "stack_used (stack_init 4096 8192) \<le> stack_size (stack_init 4096 8192) \<and>
   bump_only (stack_size (stack_init 4096 8192)) (StackAllocate 10 16) \<and>
   bump_only (stack_size (stack_init 4096 8192)) (StackAllocate 100 16) \<and>
   stack_used (stack_run (stack_init 4096 8192) [StackAllocate 10 16, StackAllocate 100 16]) = 128 \<and>
   stack_used (stack_init 4096 8192)
     \<le> stack_used (stack_run (stack_init 4096 8192) [StackAllocate 10 16, StackAllocate 100 16]) \<and>
   stack_used (deallocate_to (stack_init 4096 8192) (Some 4112)) = 16"
proof -
  have a: "stack_used (stack_init 4096 8192) \<le> stack_size (stack_init 4096 8192)"
    by (simp add: stack_used_def stack_init_def)
  have b: "\<forall>op \<in> set [StackAllocate 10 16, StackAllocate 100 16].
      bump_only (stack_size (stack_init 4096 8192)) op"
    by (simp add: stack_init_def)
  have c: "stack_used (stack_run (stack_init 4096 8192)
             [StackAllocate 10 16, StackAllocate 100 16]) = 128"
    by code_simp
  have d: "stack_used (deallocate_to (stack_init 4096 8192) (Some 4112)) = 16"
    by code_simp
  have e: "bump_only (stack_size (stack_init 4096 8192)) (StackAllocate 10 16)"
    "bump_only (stack_size (stack_init 4096 8192)) (StackAllocate 100 16)"
    by (simp_all add: stack_init_def)
  show ?thesis
    using stack_used_nondecreasing_under_allocate [OF a b] a c d e by blast
qed

text \<open>
  Why the sizes are bounded above: with 16 bytes in use, \<open>allocate\<close> of \<open>2^64 - 16\<close>
  bytes wraps the new offset around to 0 and succeeds.
\<close>

lemma stack_allocate_wraps:
  "stack_used (snd (stack_allocate (stack_init 4096 8192) 16 16)) = 16 \<and>
   stack_allocate (snd (stack_allocate (stack_init 4096 8192) 16 16)) (- 16) 16
     = (Some 4112, stack_init 4096 8192)"
  by (simp add: stack_allocate_def stack_init_def stack_used_def align_up_def max_align_def)

text \<open>
  Claim C3 as stated does not hold: with no \<open>reset()\<close> in between, \<open>deallocate_to\<close> of the
  pointer that \<open>allocate(16)\<close> has just returned takes \<open>used()\<close> from 16 back to 0.
\<close>

theorem stack_deallocate_to_lowers_used_counterexample:
  "fst (stack_allocate (stack_init 4096 8192) 16 16) = Some 4096 \<and>
   stack_used (snd (stack_allocate (stack_init 4096 8192) 16 16)) = 16 \<and>
   stack_used (stack_run (snd (stack_allocate (stack_init 4096 8192) 16 16))
                 [StackDeallocateTo (Some 4096)]) = 0 \<and>
   \<not> stack_used (snd (stack_allocate (stack_init 4096 8192) 16 16))
       \<le> stack_used (stack_run (snd (stack_allocate (stack_init 4096 8192) 16 16))
                 [StackDeallocateTo (fst (stack_allocate (stack_init 4096 8192) 16 16))])"
  by code_simp

section \<open>Properties of the memory manager\<close>

lemma pool_allocate_exhausted:
  assumes "next_free s \<le> PoolSize s" and "\<forall>j < PoolSize s. used s ! j"
  shows "pool_allocate s = (None, s)"
  using pool_allocate_cases [OF assms(1)] assms(2) by auto

text \<open>
  Claim C1, as amended.  When the pool of the size class of a request of at most 4096
  bytes has all its slots in use, \<open>MemoryManager::allocate\<close> returns \<open>nullptr\<close> and
  changes neither the pools nor the statistics; the system allocator is not consulted.
\<close>

theorem mm_allocate_exhausted_returns_null:
  assumes "sz \<le> 4096"
    and "next_free (size_class_pool mm sz) \<le> PoolSize (size_class_pool mm sz)"
    and "\<forall>j < PoolSize (size_class_pool mm sz). used (size_class_pool mm sz) ! j"
  shows "mm_allocate aligned_alloc mm sz alignment = (None, mm)"
proof -
  have "pool_allocate (size_class_pool mm sz) = (None, size_class_pool mm sz)"
    using assms(2,3) by (rule pool_allocate_exhausted)
  with assms(1) show ?thesis
    by (auto simp: mm_allocate_def size_class_pool_def split: if_splits)
qed

lemma small_exhausted_pool:
  "size_class_pool mm_small_exhausted 32 =
     \<lparr>storage_begin = 65536, block_size = 1, used = replicate 4096 True,
      next_free = 0, allocated_count = 4096\<rparr>"
  by (simp add: size_class_pool_def mm_small_exhausted_def)

theorem mm_allocate_exhausted_returns_null_witness:
  "(32 :: size_t) \<le> 4096 \<and>
   used (size_class_pool mm_small_exhausted 32) = replicate 4096 True \<and>
   next_free (size_class_pool mm_small_exhausted 32) = 0 \<and>
   mm_allocate (\<lambda>alignment sz. Some 1048576) mm_small_exhausted 32 16
     = (None, mm_small_exhausted)"
proof -
  have a: "(32 :: size_t) \<le> 4096" by simp
  have b: "next_free (size_class_pool mm_small_exhausted 32)
             \<le> PoolSize (size_class_pool mm_small_exhausted 32)"
    by (simp add: small_exhausted_pool PoolSize_def)
  have c: "\<forall>j < PoolSize (size_class_pool mm_small_exhausted 32).
       used (size_class_pool mm_small_exhausted 32) ! j"
    by (simp add: small_exhausted_pool PoolSize_def)
  have d: "used (size_class_pool mm_small_exhausted 32) = replicate 4096 True"
    "next_free (size_class_pool mm_small_exhausted 32) = 0"
    by (simp_all add: small_exhausted_pool)
  show ?thesis
    using mm_allocate_exhausted_returns_null [OF a b c] a d by blast
qed

text \<open>
  Claim C1 as stated does not hold: with the small pool exhausted, a request of 32 bytes
  yields \<open>nullptr\<close>, although the system allocator would have had a block to give.
\<close>

theorem mm_allocate_exhausted_counterexample:
  "fst (mm_allocate (\<lambda>alignment sz. Some 1048576) mm_small_exhausted 32 16) = None"
proof -
  have "pool_allocate (size_class_pool mm_small_exhausted 32)
          = (None, size_class_pool mm_small_exhausted 32)"
    by (rule pool_allocate_exhausted) (simp_all add: small_exhausted_pool PoolSize_def)
  then have "pool_allocate (small_object_pool mm_small_exhausted)
          = (None, small_object_pool mm_small_exhausted)"
    by (simp add: size_class_pool_def)
  then show ?thesis by (simp add: mm_allocate_def)
qed

section \<open>Statistics of the memory manager\<close>

lemma unat_sub_wrap:
  fixes a b :: size_t
  assumes "a < b"
  shows "unat (a - b) = 2 ^ 64 - (unat b - unat a)"
proof -
  from assms have lt: "unat a < unat b" by (simp add: word_less_nat_alt)
  have "unat b < 2 ^ 64" using unsigned_less [of b, where 'a = nat] by simp
  with lt have "unat a + 2 ^ 64 - unat b = 2 ^ 64 - (unat b - unat a)" by simp
  with lt show ?thesis by (simp add: unat_sub_if_size word_size)
qed

lemma pool_deallocate_not_in_storage:
  "\<not> in_storage s a \<Longrightarrow> pool_deallocate s (Some a) = s"
  by (auto simp: pool_deallocate_def in_storage_def Let_def)

text \<open>
  Claim C10, as amended.  Where the call is defined, that is for a size of at most 4096
  with any non-null pointer, or for a larger size with a block of the system allocator,
  \<open>MemoryManager::deallocate\<close> adds \<open>size\<close> to \<open>total_deallocated\<close> and leaves
  \<open>total_allocated\<close> alone; when the pointer lies in none of the three pools it changes
  no pool either, so no memory of the manager is released.  \<open>get_stats().current_usage\<close>
  is the \<open>size_t\<close> difference of the two totals, and once \<open>total_deallocated\<close> exceeds
  \<open>total_allocated\<close> it is \<open>2^64\<close> minus the excess.
\<close>

theorem mm_deallocate_counts_when_defined:
  assumes "sz \<le> 4096 \<or> system_block a"
  shows "(\<exists>mm'. mm_deallocate system_block mm (Some a) sz = Inr mm' \<and>
            total_deallocated mm' = total_deallocated mm + sz \<and>
            total_allocated mm' = total_allocated mm) \<and>
   (\<not> in_storage (small_object_pool mm) a \<and> \<not> in_storage (medium_object_pool mm) a \<and>
    \<not> in_storage (large_object_pool mm) a \<longrightarrow>
      mm_deallocate system_block mm (Some a) sz
        = Inr (mm\<lparr>total_deallocated := total_deallocated mm + sz\<rparr>)) \<and>
   current_usage (get_stats mm) = total_allocated mm - total_deallocated mm \<and>
   (total_allocated mm < total_deallocated mm \<longrightarrow>
      unat (current_usage (get_stats mm))
        = 2 ^ 64 - (unat (total_deallocated mm) - unat (total_allocated mm)))"
proof -
  have 1: "\<exists>mm'. mm_deallocate system_block mm (Some a) sz = Inr mm' \<and>
            total_deallocated mm' = total_deallocated mm + sz \<and>
            total_allocated mm' = total_allocated mm"
    using assms by (auto simp: mm_deallocate_def update_statistics_def)
  have 3: "mm_deallocate system_block mm (Some a) sz
             = Inr (mm\<lparr>total_deallocated := total_deallocated mm + sz\<rparr>)"
    if "\<not> in_storage (small_object_pool mm) a" "\<not> in_storage (medium_object_pool mm) a"
       "\<not> in_storage (large_object_pool mm) a"
    using that assms
    by (auto simp: mm_deallocate_def update_statistics_def pool_deallocate_not_in_storage)
  have 4: "current_usage (get_stats mm) = total_allocated mm - total_deallocated mm"
    by (simp add: get_stats_def)
  have 5: "unat (current_usage (get_stats mm))
        = 2 ^ 64 - (unat (total_deallocated mm) - unat (total_allocated mm))"
    if "total_allocated mm < total_deallocated mm"
    using unat_sub_wrap [OF that] by (simp add: get_stats_def)
  from 1 3 4 5 show ?thesis by blast
qed

theorem mm_deallocate_counts_when_defined_witness:
  "(100 :: size_t) \<le> 4096 \<and>
   \<not> in_storage (small_object_pool (mm_init 65536 131072 196608 262144)) 12345 \<and>
   \<not> in_storage (medium_object_pool (mm_init 65536 131072 196608 262144)) 12345 \<and>
   \<not> in_storage (large_object_pool (mm_init 65536 131072 196608 262144)) 12345 \<and>
   mm_deallocate (\<lambda>a. False) (mm_init 65536 131072 196608 262144) (Some 12345) 100
     = Inr ((mm_init 65536 131072 196608 262144)\<lparr>total_deallocated := 100\<rparr>) \<and>
   total_allocated ((mm_init 65536 131072 196608 262144)\<lparr>total_deallocated := 100\<rparr>)
     < total_deallocated ((mm_init 65536 131072 196608 262144)\<lparr>total_deallocated := 100\<rparr>) \<and>
   unat (current_usage (get_stats
           ((mm_init 65536 131072 196608 262144)\<lparr>total_deallocated := 100\<rparr>)))
     = 2 ^ 64 - 100 \<and>
   mm_deallocate (\<lambda>a. a = 1048576) (mm_init 65536 131072 196608 262144) (Some 1048576) 5000
     = Inr ((mm_init 65536 131072 196608 262144)\<lparr>total_deallocated := 5000\<rparr>)"
proof -
  let ?m = "mm_init 65536 131072 196608 262144"
  let ?m' = "?m\<lparr>total_deallocated := 100\<rparr>"
  have h: "(100 :: size_t) \<le> 4096" by simp
  have a: "\<not> in_storage (small_object_pool ?m) 12345"
    "\<not> in_storage (medium_object_pool ?m) 12345"
    "\<not> in_storage (large_object_pool ?m) 12345"
    by (simp_all add: in_storage_def mm_init_def pool_init_def)
  have a': "\<not> in_storage (small_object_pool ?m) 1048576"
    "\<not> in_storage (medium_object_pool ?m) 1048576"
    "\<not> in_storage (large_object_pool ?m) 1048576"
    by (simp_all add: in_storage_def mm_init_def pool_init_def PoolSize_def)
  have t: "total_deallocated ?m = 0" "total_allocated ?m = 0"
    by (simp_all add: mm_init_def)
  from mm_deallocate_counts_when_defined [of 100 "\<lambda>a. False" 12345 ?m] a t
  have b: "mm_deallocate (\<lambda>a. False) ?m (Some 12345) 100 = Inr ?m'" by simp
  have c: "total_allocated ?m' < total_deallocated ?m'" by (simp add: t)
  from mm_deallocate_counts_when_defined [of 100 "\<lambda>a. False" 12345 ?m'] c h
  have "unat (current_usage (get_stats ?m'))
        = 2 ^ 64 - (unat (total_deallocated ?m') - unat (total_allocated ?m'))"
    by blast
  then have d: "unat (current_usage (get_stats ?m')) = 2 ^ 64 - 100"
    by (simp add: t)
  from mm_deallocate_counts_when_defined [of 5000 "\<lambda>a. a = 1048576" 1048576 ?m] a' t
  have e: "mm_deallocate (\<lambda>a. a = 1048576) ?m (Some 1048576) 5000
             = Inr (?m\<lparr>total_deallocated := 5000\<rparr>)" by simp
  from h a b c d e show ?thesis by blast
qed

text \<open>
  Claim C10 as stated does not hold for every pointer and every size: on a fresh manager,
  with no block of the system allocator outstanding, \<open>deallocate\<close> of a pointer that lies in
  no pool with a size of 5000 hands the pointer to \<open>std::free\<close>; the call has undefined
  behaviour and no counter is updated.
\<close>

theorem mm_deallocate_invalid_free_counterexample:
  "\<not> (5000 :: size_t) \<le> 4096 \<and>
   \<not> in_storage (small_object_pool (mm_init 65536 131072 196608 262144)) 12345 \<and>
   \<not> in_storage (medium_object_pool (mm_init 65536 131072 196608 262144)) 12345 \<and>
   \<not> in_storage (large_object_pool (mm_init 65536 131072 196608 262144)) 12345 \<and>
   mm_deallocate (\<lambda>a. False) (mm_init 65536 131072 196608 262144) (Some 12345) 5000
     = Inl InvalidFree"
  by (simp add: mm_deallocate_def in_storage_def mm_init_def pool_init_def)

text \<open>
  For a size of at most 4096 the result of \<open>MemoryManager::allocate\<close> does not depend on
  the system allocator.
\<close>

lemma mm_allocate_ignores_system_allocator:
  "sz \<le> 4096 \<Longrightarrow>
   mm_allocate aligned_alloc mm sz alignment = mm_allocate aligned_alloc' mm sz alignment"
  by (simp add: mm_allocate_def)

section \<open>Reading the output of a process\<close>

lemma take_append_bytes:
  assumes "n \<le> length buffer"
  shows "take (n + length data) (append_bytes buffer n data) = take n buffer @ data"
proof -
  have "take (n + length data) (take n buf @ data @ rest) = take n buf @ data"
    if "n \<le> length buf" for buf rest :: string
    using that by simp
  moreover have "n \<le> length (take n buffer @ replicate k (CHR 0x00))" for k
    using assms by simp
  moreover have "take n (take n buffer @ replicate k (CHR 0x00)) = take n buffer" for k
    using assms by simp
  ultimately show ?thesis
    using assms unfolding append_bytes_def Let_def by (auto simp del: take_append)
qed

lemma getStdout_appendStdout:
  "stdout_size pio \<le> length (stdout_buffer pio) \<Longrightarrow>
   getStdout (appendStdout pio data) = getStdout pio @ data"
  by (simp add: getStdout_def appendStdout_def take_append_bytes)

lemma getAllOutput_process_with_output:
  "getAllOutput (io process_with_output) = ''hi''"
proof -
  have "stdout_size ProcessIO_new \<le> length (stdout_buffer ProcessIO_new)"
    by (simp add: ProcessIO_new_def)
  from getStdout_appendStdout [OF this, of "''hi''"]
  have "getStdout (appendStdout ProcessIO_new ''hi'') = ''hi''"
    by (simp add: getStdout_def ProcessIO_new_def)
  moreover have "stderr_size (appendStdout ProcessIO_new ''hi'') = 0"
    by (simp add: appendStdout_def ProcessIO_new_def)
  ultimately show ?thesis
    by (simp add: getAllOutput_def getStdout_def process_with_output_def)
qed

text \<open>
  Claim C2, as amended.  \<open>readOutput(max_bytes)\<close> returns the buffered output, standard
  output followed by standard error: all of it when \<open>max_bytes\<close> is 0, otherwise its first
  \<open>max_bytes\<close> bytes.  It leaves the process and its buffers as they were, so an
  immediately following call returns the same bytes again.  \<open>ShellImpl::readOutput\<close> on a
  process id of the table gives the same string and leaves the shell as it was.
\<close>

theorem readOutput_returns_prefix_and_keeps_buffer:
  "fst (readOutput p max_bytes)
     = (if max_bytes = 0 then getAllOutput (io p) else take max_bytes (getAllOutput (io p))) \<and>
   snd (readOutput p max_bytes) = p \<and>
   fst (readOutput (snd (readOutput p max_bytes)) max_bytes) = fst (readOutput p max_bytes) \<and>
   (active_processes sh k = Some p \<longrightarrow>
      shell_readOutput sh k max_bytes = (fst (readOutput p max_bytes), sh))"
proof -
  have 1: "snd (readOutput p max_bytes) = p"
    by (simp add: readOutput_def Let_def)
  have 2: "fst (readOutput p max_bytes)
     = (if max_bytes = 0 then getAllOutput (io p) else take max_bytes (getAllOutput (io p)))"
    by (simp add: readOutput_def Let_def)
  have 3: "shell_readOutput sh k max_bytes = (fst (readOutput p max_bytes), sh)"
    if "active_processes sh k = Some p"
  proof -
    have "(active_processes sh)(k \<mapsto> p) = active_processes sh"
      using that by (rule map_upd_triv)
    with that 1 show ?thesis
      by (cases "readOutput p max_bytes") (simp add: shell_readOutput_def)
  qed
  from 1 2 3 show ?thesis by simp
qed

theorem readOutput_returns_prefix_and_keeps_buffer_witness:
  "active_processes (test_shell\<lparr>active_processes := [1000 \<mapsto> process_with_output]\<rparr>) 1000
     = Some process_with_output \<and>
   fst (readOutput process_with_output 1) = ''h'' \<and>
   shell_readOutput (test_shell\<lparr>active_processes := [1000 \<mapsto> process_with_output]\<rparr>) 1000 1
     = (''h'', test_shell\<lparr>active_processes := [1000 \<mapsto> process_with_output]\<rparr>)"
proof -
  let ?sh = "test_shell\<lparr>active_processes := [1000 \<mapsto> process_with_output]\<rparr>"
  have a: "active_processes ?sh 1000 = Some process_with_output" by simp
  from readOutput_returns_prefix_and_keeps_buffer [of process_with_output 1 ?sh 1000] a
  show ?thesis by (simp add: getAllOutput_process_with_output)
qed

text \<open>
  Claim C2 as stated does not hold: a started process whose buffer holds \<open>hi\<close> returns
  \<open>hi\<close> from \<open>readOutput(0)\<close>, and returns \<open>hi\<close> again from the call that follows.
\<close>

theorem readOutput_does_not_drain_counterexample:
  "state (info process_with_output) = Running \<and>
   fst (readOutput process_with_output 0) = ''hi'' \<and>
   fst (readOutput (snd (readOutput process_with_output 0)) 0) = ''hi''"
proof -
  have "state (info process_with_output) = Running"
    by (simp add: process_with_output_def start_def ManagedProcess_new_def)
  then show ?thesis
    by (simp add: readOutput_def getAllOutput_process_with_output)
qed

section \<open>Invalid commands and the cd built-in\<close>

text \<open>
  Claim C7.  When the parse of a command is not valid (its \<open>executable\<close> is empty),
  \<open>executeSync\<close> returns a \<open>ProcessInfo\<close> whose state is \<open>Failed\<close> (with exit code -1),
  and \<open>executeAsync\<close> and \<open>executeInteractive\<close> return -1.
\<close>

theorem invalid_command_fails:
  assumes "\<not> isValid (parseCommand pf sh cmd)"
  shows "fst (executeSync pf sh cmd)
           = Some (ProcessInfo_default\<lparr>state := Failed, exit_code := - 1\<rparr>) \<and>
         (\<exists>pinfo. fst (executeSync pf sh cmd) = Some pinfo \<and> state pinfo = Failed) \<and>
         fst (executeAsync pf sh cmd) = - 1 \<and>
         fst (executeInteractive pf sh cmd) = - 1"
  using assms by (simp add: executeSync_def executeAsync_def executeInteractive_def)

lemma parse_blank: "executable (parseCommand test_platform test_shell ''  '') = []"
  by (simp add: parseCommand_def test_platform_def blank_parser_def)

theorem invalid_command_fails_witness:
  "\<not> isValid (parseCommand test_platform test_shell ''  '') \<and>
   fst (executeSync test_platform test_shell ''  '')
     = Some (ProcessInfo_default\<lparr>state := Failed, exit_code := - 1\<rparr>) \<and>
   fst (executeAsync test_platform test_shell ''  '') = - 1 \<and>
   fst (executeInteractive test_platform test_shell ''  '') = - 1"
proof -
  have a: "\<not> isValid (parseCommand test_platform test_shell ''  '')"
    by (simp add: isValid_def parse_blank)
  from invalid_command_fails [OF a] a show ?thesis by blast
qed

text \<open>
  Claim C8.  Let the parser split \<open>cd /nonexistent-path-xyz\<close> into the executable \<open>cd\<close>
  and the one argument, and let \<open>chdir\<close> to that path fail, as it does for a directory
  that does not exist.  Then \<open>executeSync\<close> returns a \<open>ProcessInfo\<close> with state \<open>Failed\<close>
  and exit code 1, and \<open>getCurrentDirectory()\<close> is the same after the call as before.
\<close>

theorem cd_nonexistent_fails:
  assumes "executable (parseCommand pf sh ''cd /nonexistent-path-xyz'') = ''cd''"
    and "parsed_arguments (parseCommand pf sh ''cd /nonexistent-path-xyz'')
           = [''/nonexistent-path-xyz'']"
    and "\<not> os_chdir pf ''/nonexistent-path-xyz''"
  shows "(\<exists>pinfo. fst (executeSync pf sh ''cd /nonexistent-path-xyz'') = Some pinfo \<and>
            state pinfo = Failed \<and> exit_code pinfo = 1) \<and>
         getCurrentDirectory (snd (executeSync pf sh ''cd /nonexistent-path-xyz''))
           = getCurrentDirectory sh"
proof -
  let ?cmd = "''cd /nonexistent-path-xyz''"
  have v: "isValid (parseCommand pf sh ?cmd)"
    using assms(1) by (simp add: isValid_def)
  have b: "isBuiltinCommand (executable (parseCommand pf sh ?cmd))"
    using assms(1) by (simp add: isBuiltinCommand_def)
  have s: "setCurrentDirectory pf sh ''/nonexistent-path-xyz'' = (False, sh)"
    using assms(3) by (simp add: setCurrentDirectory_def)
  have cd: "executeBuiltinCd pf sh [''/nonexistent-path-xyz'']
              = ((builtin_info pf ''cd'' [''/nonexistent-path-xyz''])
                   \<lparr>state := Failed, exit_code := 1, end_time := os_now pf\<rparr>, sh)"
    using s by (simp add: executeBuiltinCd_def Let_def)
  have "executeSync pf sh ?cmd
          = (Some ((builtin_info pf ''cd'' [''/nonexistent-path-xyz''])
                     \<lparr>state := Failed, exit_code := 1, end_time := os_now pf\<rparr>), sh)"
    using v b assms(1,2) cd
    by (simp add: executeSync_def Let_def executeBuiltin_def)
  then show ?thesis by simp
qed

lemma parse_cd:
  "parseCommand test_platform test_shell ''cd /nonexistent-path-xyz''
     = \<lparr>executable = ''cd'', parsed_arguments = [''/nonexistent-path-xyz''],
        input_redirections = [], output_redirections = [], append_output = False,
        run_in_background = False\<rparr>"
  by (simp add: parseCommand_def test_platform_def blank_parser_def)

theorem cd_nonexistent_fails_witness:
  "executable (parseCommand test_platform test_shell ''cd /nonexistent-path-xyz'') = ''cd'' \<and>
   parsed_arguments (parseCommand test_platform test_shell ''cd /nonexistent-path-xyz'')
     = [''/nonexistent-path-xyz''] \<and>
   \<not> os_chdir test_platform ''/nonexistent-path-xyz'' \<and>
   (\<exists>pinfo. fst (executeSync test_platform test_shell ''cd /nonexistent-path-xyz'') = Some pinfo \<and>
            state pinfo = Failed \<and> exit_code pinfo = 1) \<and>
   getCurrentDirectory (snd (executeSync test_platform test_shell ''cd /nonexistent-path-xyz''))
     = ''/tmp''"
proof -
  have a: "executable (parseCommand test_platform test_shell ''cd /nonexistent-path-xyz'') = ''cd''"
    by (simp add: parse_cd)
  have b: "parsed_arguments (parseCommand test_platform test_shell ''cd /nonexistent-path-xyz'')
     = [''/nonexistent-path-xyz'']"
    by (simp add: parse_cd)
  have c: "\<not> os_chdir test_platform ''/nonexistent-path-xyz''"
    by (simp add: test_platform_def)
  have d: "getCurrentDirectory test_shell = ''/tmp''"
    by (simp add: getCurrentDirectory_def test_shell_def)
  from cd_nonexistent_fails [OF a b c] a b c d show ?thesis by simp
qed

section \<open>Synchronous execution and the process table\<close>

lemma executeSync_shell:
  assumes "\<not> isBuiltinCommand (executable (parseCommand pf sh cmd))"
  shows "snd (executeSync pf sh cmd) = sh \<or>
         snd (executeSync pf sh cmd) = sh\<lparr>next_pid := next_pid sh + 1\<rparr>"
  using assms by (simp add: executeSync_def Let_def)

text \<open>
  Claim C9.  For a command that is not a built-in, \<open>executeSync\<close> leaves the process
  table as it was; so \<open>getProcessInfo\<close>, \<open>getAllProcesses\<close>, \<open>readOutput\<close> and
  \<open>terminateProcess\<close> answer after the call (and while it polls) as they did before it,
  and when the id given to the spawned process, \<open>next_pid\<close>, was not in the table, a
  query for it gets the answers for an unknown process.
\<close>

theorem executeSync_keeps_process_table:
  assumes "\<not> isBuiltinCommand (executable (parseCommand pf sh cmd))"
  shows "active_processes (snd (executeSync pf sh cmd)) = active_processes sh \<and>
         (\<forall>p. getProcessInfo (snd (executeSync pf sh cmd)) p = getProcessInfo sh p) \<and>
         getAllProcesses (snd (executeSync pf sh cmd)) = getAllProcesses sh \<and>
         (\<forall>p n. fst (shell_readOutput (snd (executeSync pf sh cmd)) p n)
                  = fst (shell_readOutput sh p n)) \<and>
         (\<forall>p force. fst (terminateProcess pf (snd (executeSync pf sh cmd)) p force)
                  = fst (terminateProcess pf sh p force)) \<and>
         (active_processes sh (next_pid sh) = None \<longrightarrow>
            getProcessInfo (snd (executeSync pf sh cmd)) (next_pid sh)
              = ProcessInfo_default\<lparr>pid := next_pid sh, state := NotStarted\<rparr> \<and>
            fst (shell_readOutput (snd (executeSync pf sh cmd)) (next_pid sh) 0) = [] \<and>
            \<not> fst (terminateProcess pf (snd (executeSync pf sh cmd)) (next_pid sh) True))"
proof -
  let ?sh' = "snd (executeSync pf sh cmd)"
  have t: "active_processes ?sh' = active_processes sh"
    using executeSync_shell [OF assms] by auto
  have 1: "getProcessInfo ?sh' p = getProcessInfo sh p" for p
    by (simp add: getProcessInfo_def t)
  have 2: "getAllProcesses ?sh' = getAllProcesses sh"
    by (simp add: getAllProcesses_def t)
  have 3: "fst (shell_readOutput ?sh' p n) = fst (shell_readOutput sh p n)" for p n
    by (simp add: shell_readOutput_def t split: option.splits prod.splits)
  have 4: "fst (terminateProcess pf ?sh' p force) = fst (terminateProcess pf sh p force)"
    for p force
    by (simp add: terminateProcess_def t split: option.splits prod.splits)
  have 5: "getProcessInfo ?sh' (next_pid sh)
              = ProcessInfo_default\<lparr>pid := next_pid sh, state := NotStarted\<rparr> \<and>
           fst (shell_readOutput ?sh' (next_pid sh) 0) = [] \<and>
           \<not> fst (terminateProcess pf ?sh' (next_pid sh) True)"
    if "active_processes sh (next_pid sh) = None"
    using that
    by (simp add: getProcessInfo_def shell_readOutput_def terminateProcess_def t)
  from t 1 2 3 4 5 show ?thesis by blast
qed

lemma parse_ls:
  "executable (parseCommand test_platform test_shell ''ls -l'') = ''ls''"
  by (simp add: parseCommand_def test_platform_def blank_parser_def)

theorem executeSync_keeps_process_table_witness:
  "\<not> isBuiltinCommand (executable (parseCommand test_platform test_shell ''ls -l'')) \<and>
   active_processes test_shell (next_pid test_shell) = None \<and>
   active_processes (snd (executeSync test_platform test_shell ''ls -l''))
     = active_processes test_shell \<and>
   getProcessInfo (snd (executeSync test_platform test_shell ''ls -l'')) 1000
     = ProcessInfo_default\<lparr>pid := 1000, state := NotStarted\<rparr>"
proof -
  have a: "\<not> isBuiltinCommand (executable (parseCommand test_platform test_shell ''ls -l''))"
    by (simp add: parse_ls isBuiltinCommand_def)
  have b: "active_processes test_shell (next_pid test_shell) = None"
    by (simp add: test_shell_def)
  have c: "next_pid test_shell = 1000"
    by (simp add: test_shell_def)
  from executeSync_keeps_process_table [OF a] a b c show ?thesis by metis
qed

text \<open>
  The sibling path: \<open>executeAsync\<close> on a valid command does insert the process it has
  started, under the id it returns.
\<close>

lemma executeAsync_inserts:
  assumes "isValid (parseCommand pf sh cmd)"
  shows "fst (executeAsync pf sh cmd) = next_pid sh \<and>
         (\<exists>proc. active_processes (snd (executeAsync pf sh cmd)) (next_pid sh) = Some proc \<and>
                 state (info proc) = Running \<and> pid (info proc) = next_pid sh)"
  using assms
  by (simp add: executeAsync_def Let_def start_def createProcess_def ManagedProcess_new_def)

text \<open>
  No source file gives a \<open>ManagedProcess\<close> an operating-system process: the handle keeps
  the values of its default constructor.  With both descriptors closed an iteration of
  the I/O thread changes nothing, so a process that runs keeps running and the polling
  loop of \<open>executeSync\<close> does not end.
\<close>

lemma wait_while_running_Some:
  assumes "wait_while_running pf p = Some q"
  shows "\<not> (running p \<and> sint (stdout_fd (handle p)) < 0 \<and> sint (stderr_fd (handle p)) < 0)"
proof (rule wait_while_running.raw_induct
         [where P = "\<lambda>pf p q. \<not> (running p \<and> sint (stdout_fd (handle p)) < 0 \<and>
                                   sint (stderr_fd (handle p)) < 0)", OF _ assms])
  fix wait :: "platform \<Rightarrow> ManagedProcess \<Rightarrow> ManagedProcess option"
    and pf' p' q'
  assume IH: "\<And>pf p y. wait pf p = Some y \<Longrightarrow>
                \<not> (running p \<and> sint (stdout_fd (handle p)) < 0 \<and>
                   sint (stderr_fd (handle p)) < 0)"
    and step: "(if isRunning p' then wait pf' (io_thread_iteration pf' p') else Some p')
                 = Some q'"
  show "\<not> (running p' \<and> sint (stdout_fd (handle p')) < 0 \<and>
           sint (stderr_fd (handle p')) < 0)"
  proof
    assume c: "running p' \<and> sint (stdout_fd (handle p')) < 0 \<and>
               sint (stderr_fd (handle p')) < 0"
    then have "io_thread_iteration pf' p' = p'"
      by (simp add: io_thread_iteration_def)
    with c step have "wait pf' p' = Some q'"
      by (simp add: isRunning_def)
    from IH [OF this] c show False by simp
  qed
qed

lemma executeSync_external_never_returns:
  assumes "isValid (parseCommand pf sh cmd)"
    and "\<not> isBuiltinCommand (executable (parseCommand pf sh cmd))"
  shows "fst (executeSync pf sh cmd) = None"
proof -
  let ?parsed = "parseCommand pf sh cmd"
  let ?p = "snd (start (createProcess pf sh (executable ?parsed) (parsed_arguments ?parsed)))"
  have r: "running ?p \<and> sint (stdout_fd (handle ?p)) < 0 \<and> sint (stderr_fd (handle ?p)) < 0"
    by (simp add: start_def createProcess_def ManagedProcess_new_def ProcessHandle_default_def)
  have "wait_while_running pf ?p = None"
  proof (cases "wait_while_running pf ?p")
    case None
    then show ?thesis .
  next
    case (Some q)
    from wait_while_running_Some [OF this] r show ?thesis by blast
  qed
  with assms show ?thesis
    by (simp add: executeSync_def Let_def)
qed

end
